theory Spec2Isabelle
  imports Complex_Main "HOL-Library.AList"
begin

section \<open>JavaScript values\<close>

text \<open>
  The handlers of \<^verbatim>\<open>src/main.js\<close> read the fields of a JSON request body and test them
  with \<^verbatim>\<open>typeof\<close>, truthiness and \<^verbatim>\<open>===\<close>. A JavaScript number is a double: a finite
  value, one of the two infinities (the JSON text \<^verbatim>\<open>1e999\<close> parses to \<^verbatim>\<open>Infinity\<close>) or
  \<^verbatim>\<open>NaN\<close>. Finite values are modelled as real numbers, so the rounding of a double
  addition is outside the model; \<^verbatim>\<open>-0\<close> and \<^verbatim>\<open>0\<close> are the same value \<open>Fin 0\<close> (the
  source never tells them apart).
\<close>

datatype jsnum = NaN | NegInf | Fin real | PosInf

text \<open>
  A field of a request body: absent (\<open>JUndefined\<close>) or a JSON scalar. Arrays and
  objects as field values are outside the model.
\<close>

datatype jsval = JUndefined | JNull | JBool bool | JNum jsnum | JStr string

fun js_neg :: "jsnum \<Rightarrow> jsnum" where
  "js_neg NaN = NaN"
| "js_neg NegInf = PosInf"
| "js_neg PosInf = NegInf"
| "js_neg (Fin a) = Fin (- a)"

text \<open>
  The operator \<^verbatim>\<open>+\<close> on two numbers. On two finite values it is the exact sum, which
  is the sum of the doubles whenever the exact sum is a double, as it is for integers
  of magnitude up to 2^53; elsewhere the source rounds and the model does not.
\<close>

fun js_add :: "jsnum \<Rightarrow> jsnum \<Rightarrow> jsnum" where
  "js_add (Fin a) (Fin b) = Fin (a + b)"
| "js_add NaN _ = NaN"
| "js_add _ NaN = NaN"
| "js_add PosInf NegInf = NaN"
| "js_add NegInf PosInf = NaN"
| "js_add PosInf _ = PosInf"
| "js_add _ PosInf = PosInf"
| "js_add NegInf _ = NegInf"
| "js_add _ NegInf = NegInf"

text \<open>The operator \<^verbatim>\<open>-\<close> on two numbers.\<close>

definition js_sub :: "jsnum \<Rightarrow> jsnum \<Rightarrow> jsnum" where
  "js_sub a b = js_add a (js_neg b)"

text \<open>The operator \<^verbatim>\<open><\<close> on two numbers: false as soon as one side is \<^verbatim>\<open>NaN\<close>.\<close>

fun js_lt :: "jsnum \<Rightarrow> jsnum \<Rightarrow> bool" where
  "js_lt (Fin a) (Fin b) = (a < b)"
| "js_lt NaN _ = False"
| "js_lt _ NaN = False"
| "js_lt _ NegInf = False"
| "js_lt NegInf _ = True"
| "js_lt PosInf _ = False"
| "js_lt _ PosInf = True"

text \<open>\<^verbatim>\<open>Math.max(a, b)\<close> and \<^verbatim>\<open>Math.min(a, b)\<close>: \<^verbatim>\<open>NaN\<close> as soon as one argument is.\<close>

definition Math_max :: "jsnum \<Rightarrow> jsnum \<Rightarrow> jsnum" where
  "Math_max a b = (if a = NaN \<or> b = NaN then NaN else if js_lt a b then b else a)"

definition Math_min :: "jsnum \<Rightarrow> jsnum \<Rightarrow> jsnum" where
  "Math_min a b = (if a = NaN \<or> b = NaN then NaN else if js_lt b a then b else a)"

text \<open>\<^verbatim>\<open>a === b\<close> on two numbers: \<^verbatim>\<open>NaN\<close> is equal to nothing.\<close>

definition strict_eq :: "jsnum \<Rightarrow> jsnum \<Rightarrow> bool" where
  "strict_eq a b = (a \<noteq> NaN \<and> b \<noteq> NaN \<and> a = b)"

definition Number_isInteger :: "jsnum \<Rightarrow> bool" where
  "Number_isInteger a = (case a of Fin r \<Rightarrow> r = of_int \<lfloor>r\<rfloor> | _ \<Rightarrow> False)"

text \<open>Truthiness, as \<^verbatim>\<open>!x\<close>, \<^verbatim>\<open>x || y\<close> and \<^verbatim>\<open>x && y\<close> test it.\<close>

definition truthy_num :: "jsnum \<Rightarrow> bool" where
  "truthy_num a = (a \<noteq> NaN \<and> a \<noteq> Fin 0)"

fun truthy :: "jsval \<Rightarrow> bool" where
  "truthy JUndefined = False"
| "truthy JNull = False"
| "truthy (JBool b) = b"
| "truthy (JNum a) = truthy_num a"
| "truthy (JStr s) = (s \<noteq> [])"

text \<open>The expression \<^verbatim>\<open>k || 0\<close> on a number.\<close>

definition or0 :: "jsnum \<Rightarrow> jsnum" where
  "or0 k = (if truthy_num k then k else Fin 0)"

subsection \<open>Decimal text of a non-negative integer\<close>

definition digit :: "nat \<Rightarrow> char" where
  "digit d =
     (if d = 0 then CHR ''0'' else if d = 1 then CHR ''1'' else if d = 2 then CHR ''2''
      else if d = 3 then CHR ''3'' else if d = 4 then CHR ''4'' else if d = 5 then CHR ''5''
      else if d = 6 then CHR ''6'' else if d = 7 then CHR ''7'' else if d = 8 then CHR ''8''
      else CHR ''9'')"

fun dec :: "nat \<Rightarrow> string" where
  "dec n = (if n < 10 then [digit n] else dec (n div 10) @ [digit (n mod 10)])"

declare dec.simps [simp del]

text \<open>
  A number inside a template literal. The text is exact for the non-negative integers,
  which is what \<^verbatim>\<open>Player ${code}\<close> receives after the validation of the join handler.
\<close>

definition template_num :: "jsnum \<Rightarrow> string" where
  "template_num a =
     (case a of Fin r \<Rightarrow> dec (nat \<lfloor>r\<rfloor>) | NaN \<Rightarrow> ''NaN''
      | PosInf \<Rightarrow> ''Infinity'' | NegInf \<Rightarrow> ''-Infinity'')"

section \<open>The match state\<close>

text \<open>
  A player object. \<open>pid\<close> is the field \<^verbatim>\<open>id\<close>; \<open>joinedAt\<close> is the clock reading of the
  request instead of its ISO text.
\<close>

record player =
  pid :: string
  number :: nat
  code :: jsnum
  name :: string
  ip :: string
  team :: string
  kills :: jsnum
  health :: jsnum
  joinedAt :: nat

text \<open>One of the two team objects of \<^verbatim>\<open>teams\<close>; \<open>tname\<close> is its field \<^verbatim>\<open>name\<close>.\<close>

record team_info =
  tname :: string
  flagsCaptured :: nat
  color :: string

record teams_obj =
  blue :: team_info
  red :: team_info

text \<open>
  The message of an event, kept as the values its template literal interpolates, in
  the order they appear in the text.
\<close>

datatype message =
    Join_msg string jsnum string string
  | Leave_msg string jsnum
  | Capture_msg string jsnum string
  | Obtain_msg string jsnum "string option"
  | Respawn_msg string jsnum
  | Attack_msg string jsnum string jsnum jsnum bool
  | Kill_msg string jsnum string jsnum
  | Heal_msg "string option" string jsnum jsnum
  | TeamChange_msg string jsnum string
  | Match_restarted

text \<open>An entry of the event log: \<open>ts\<close> stands for both \<^verbatim>\<open>ts\<close> and \<^verbatim>\<open>displayTs\<close>.\<close>

record entry =
  ts :: nat
  message :: message

text \<open>
  The module-level variables. \<open>players\<close> is the \<^verbatim>\<open>Map\<close>, as the list of its entries
  in insertion order. \<open>nextPlayerNumber\<close> and \<open>flagsCaptured\<close> only ever hold \<open>4\<close>,
  \<open>0\<close> and what \<^verbatim>\<open>++\<close> makes of them, so they are natural numbers.
\<close>

record match =
  players :: "(string \<times> player) list"
  teams :: teams_obj
  nextPlayerNumber :: nat
  flagHolder :: "string option"
  events :: "entry list"

definition init :: match where
  "init = \<lparr> players = [],
            teams = \<lparr> blue = \<lparr> tname = ''Blue'', flagsCaptured = 0, color = ''#0066ff'' \<rparr>,
                      red = \<lparr> tname = ''Red'', flagsCaptured = 0, color = ''#ff3333'' \<rparr> \<rparr>,
            nextPlayerNumber = 4,
            flagHolder = None,
            events = [] \<rparr>"

text \<open>
  \<^verbatim>\<open>logEvent\<close>: push the entry, then drop the first entry if the log has more than
  2000. \<open>now\<close> is the clock reading.
\<close>

definition logEvent :: "nat \<Rightarrow> message \<Rightarrow> entry list \<Rightarrow> entry list" where
  "logEvent now m evs =
     (let evs1 = evs @ [\<lparr> ts = now, message = m \<rparr>]
      in if length evs1 > 2000 then tl evs1 else evs1)"

text \<open>
  \<^verbatim>\<open>assignTeam\<close>: the counts of the players whose team is \<^verbatim>\<open>'blue'\<close> and \<^verbatim>\<open>'red'\<close>.
\<close>

definition team_count :: "string \<Rightarrow> (string \<times> player) list \<Rightarrow> nat" where
  "team_count k ps = length (filter (\<lambda>p. team p = k) (map snd ps))"

definition assignTeam :: "(string \<times> player) list \<Rightarrow> string" where
  "assignTeam ps =
     (let bluePlayers = team_count ''blue'' ps; redPlayers = team_count ''red'' ps
      in if bluePlayers \<le> redPlayers then ''blue'' else ''red'')"

text \<open>
  The property read \<^verbatim>\<open>teams[k]\<close>. \<^verbatim>\<open>teams\<close> is an object literal, so a key that is not
  its own is looked up in \<^verbatim>\<open>Object.prototype\<close>: \<^verbatim>\<open>teams['constructor']\<close> is the function
  \<^verbatim>\<open>Object\<close>, a truthy value. Every property of \<^verbatim>\<open>Object.prototype\<close> is an object or a
  function, hence truthy.
\<close>

datatype team_slot = Own_blue | Own_red | Inherited | Missing

definition Object_prototype_keys :: "string list" where
  "Object_prototype_keys =
     [''constructor'', ''__proto__'', ''hasOwnProperty'', ''isPrototypeOf'',
      ''propertyIsEnumerable'', ''toLocaleString'', ''toString'', ''valueOf'',
      ''__defineGetter__'', ''__defineSetter__'', ''__lookupGetter__'', ''__lookupSetter__'']"

definition teams_get :: "string \<Rightarrow> team_slot" where
  "teams_get k =
     (if k = ''blue'' then Own_blue else if k = ''red'' then Own_red
      else if k \<in> set Object_prototype_keys then Inherited else Missing)"

section \<open>Requests and replies\<close>

text \<open>
  The error replies, named as the specification names them. The source sends 400 for
  \<open>InvalidInput\<close>, \<open>InvalidTransition\<close> and \<open>BadState\<close>, 404 for \<open>NotFound\<close> and 409 for
  \<open>Conflict\<close>.
\<close>

datatype error = InvalidInput | Conflict | NotFound | InvalidTransition | BadState

fun http_status :: "error \<Rightarrow> nat" where
  "http_status InvalidInput = 400"
| "http_status Conflict = 409"
| "http_status NotFound = 404"
| "http_status InvalidTransition = 400"
| "http_status BadState = 400"

datatype reply =
    Failed error
  | Join_ok string player
  | Players_ok "player list" teams_obj "string option" "string option"
  | Events_ok "entry list"
  | Player_ok player
  | Removed
  | Capture_ok string jsnum "string option"
  | Obtain_ok string "string option" "string option"
  | Attack_ok player player bool "string option"
  | Heal_ok player
  | Restarted

text \<open>
  \<^verbatim>\<open>!playerId || !players.has(playerId)\<close> followed by \<^verbatim>\<open>players.get(playerId)\<close>: the key
  and the player when the field is a non-empty string that is a key of the map.
\<close>

definition find_player :: "match \<Rightarrow> jsval \<Rightarrow> (string \<times> player) option" where
  "find_player s v =
     (if \<not> truthy v then None
      else case v of
        JStr k \<Rightarrow> (case map_of (players s) k of None \<Rightarrow> None | Some p \<Rightarrow> Some (k, p))
      | _ \<Rightarrow> None)"

text \<open>\<^verbatim>\<open>POST /api/player/join\<close>, from the address \<open>addr\<close> (what \<^verbatim>\<open>getClientIP\<close> returns).\<close>

definition join :: "nat \<Rightarrow> jsval \<Rightarrow> string \<Rightarrow> match \<Rightarrow> reply \<times> match" where
  "join now cd addr s =
     (case cd of
        JNum c \<Rightarrow>
          if js_lt c (Fin 0) \<or> js_lt (Fin 99) c \<or> \<not> Number_isInteger c
          then (Failed InvalidInput, s)
          else if list_ex (\<lambda>p. strict_eq (code p) c) (map snd (players s))
          then (Failed Conflict, s)
          else if list_ex (\<lambda>p. ip p = addr) (map snd (players s))
          then (Failed Conflict, s)
          else
            let tm = assignTeam (players s);
                playerId = addr @ ''-'' @ dec now;
                p = \<lparr> pid = playerId, number = nextPlayerNumber s, code = c,
                      name = ''Player '' @ template_num c, ip = addr, team = tm,
                      kills = Fin 0, health = Fin 100, joinedAt = now \<rparr>
            in (Join_ok playerId p,
                s\<lparr> players := AList.update playerId p (players s),
                   nextPlayerNumber := Suc (nextPlayerNumber s),
                   events := logEvent now (Join_msg (name p) (code p) (team p) (ip p)) (events s) \<rparr>)
      | _ \<Rightarrow> (Failed InvalidInput, s))"

text \<open>\<^verbatim>\<open>GET /api/players\<close> and \<^verbatim>\<open>GET /api/events\<close>.\<close>

definition list_players :: "string \<Rightarrow> match \<Rightarrow> reply \<times> match" where
  "list_players addr s =
     (Players_ok (map snd (players s)) (teams s) (flagHolder s)
        (case find (\<lambda>p. ip p = addr) (map snd (players s)) of
           None \<Rightarrow> None
         | Some p \<Rightarrow> (if pid p = [] then None else Some (pid p))),
      s)"

definition list_events :: "match \<Rightarrow> reply \<times> match" where
  "list_events s = (Events_ok (events s), s)"

text \<open>\<^verbatim>\<open>POST /api/player/update\<close>.\<close>

definition update :: "jsval \<Rightarrow> jsval \<Rightarrow> jsval \<Rightarrow> match \<Rightarrow> reply \<times> match" where
  "update playerId k h s =
     (case find_player s playerId of
        None \<Rightarrow> (Failed NotFound, s)
      | Some (i, p) \<Rightarrow>
          let p1 = (case k of JNum n \<Rightarrow> p\<lparr> kills := Math_max (Fin 0) n \<rparr> | _ \<Rightarrow> p);
              p2 = (case h of JNum n \<Rightarrow> p1\<lparr> health := Math_max (Fin 0) (Math_min (Fin 100) n) \<rparr>
                    | _ \<Rightarrow> p1)
          in (Player_ok p2, s\<lparr> players := AList.update i p2 (players s) \<rparr>))"

text \<open>\<^verbatim>\<open>DELETE /api/player/:id\<close>; the id is a segment of the path, a string.\<close>

definition delete_player :: "nat \<Rightarrow> string \<Rightarrow> match \<Rightarrow> reply \<times> match" where
  "delete_player now i s =
     (case map_of (players s) i of
        None \<Rightarrow> (Failed NotFound, s)
      | Some p \<Rightarrow>
          (Removed,
           s\<lparr> flagHolder := (if flagHolder s = Some i then None else flagHolder s),
              players := AList.delete i (players s),
              events := logEvent now (Leave_msg (name p) (code p)) (events s) \<rparr>))"

text \<open>
  \<^verbatim>\<open>POST /api/flag/capture\<close>. On an inherited slot \<^verbatim>\<open>flagsCaptured++\<close> reads
  \<^verbatim>\<open>undefined\<close> and stores \<^verbatim>\<open>NaN\<close> on the inherited object, which is no part of the
  match; the reply carries that \<^verbatim>\<open>NaN\<close>.
\<close>

definition capture :: "nat \<Rightarrow> jsval \<Rightarrow> match \<Rightarrow> reply \<times> match" where
  "capture now playerId s =
     (case find_player s playerId of
        None \<Rightarrow> (Failed NotFound, s)
      | Some (i, p) \<Rightarrow>
          let teamKey = team p in
          if teams_get teamKey = Missing then (Failed BadState, s)
          else if flagHolder s \<noteq> Some i then (Failed InvalidTransition, s)
          else
            let ts1 = (case teams_get teamKey of
                         Own_blue \<Rightarrow> (teams s)\<lparr> blue := (blue (teams s))
                             \<lparr> flagsCaptured := Suc (flagsCaptured (blue (teams s))) \<rparr> \<rparr>
                       | Own_red \<Rightarrow> (teams s)\<lparr> red := (red (teams s))
                             \<lparr> flagsCaptured := Suc (flagsCaptured (red (teams s))) \<rparr> \<rparr>
                       | _ \<Rightarrow> teams s);
                n = (case teams_get teamKey of
                       Own_blue \<Rightarrow> Fin (real (flagsCaptured (blue ts1)))
                     | Own_red \<Rightarrow> Fin (real (flagsCaptured (red ts1)))
                     | _ \<Rightarrow> NaN)
            in (Capture_ok teamKey n None,
                s\<lparr> teams := ts1, flagHolder := None,
                   events := logEvent now (Capture_msg (name p) (code p) teamKey) (events s) \<rparr>))"

text \<open>\<^verbatim>\<open>POST /api/flag/obtain\<close>.\<close>

definition obtain_flag :: "nat \<Rightarrow> jsval \<Rightarrow> match \<Rightarrow> reply \<times> match" where
  "obtain_flag now playerId s =
     (case find_player s playerId of
        None \<Rightarrow> (Failed NotFound, s)
      | Some (i, p) \<Rightarrow>
          let previousHolder = flagHolder s
          in (Obtain_ok i previousHolder (Some i),
              s\<lparr> flagHolder := Some i,
                 events := logEvent now (Obtain_msg (name p) (code p) previousHolder) (events s) \<rparr>))"

text \<open>
  \<^verbatim>\<open>POST /api/player/attack\<close>. \<open>attack_damage\<close> is the constant \<^verbatim>\<open>dmg\<close>: the damage
  clamped at 0, or 10 when the field is not a number.
\<close>

definition attack_damage :: "jsval \<Rightarrow> jsnum" where
  "attack_damage damage = (case damage of JNum d \<Rightarrow> Math_max (Fin 0) d | _ \<Rightarrow> Fin 10)"

definition attack :: "nat \<Rightarrow> jsval \<Rightarrow> jsval \<Rightarrow> jsval \<Rightarrow> match \<Rightarrow> reply \<times> match" where
  "attack now attackerId targetId damage s =
     (let dmg = attack_damage damage in
      case find_player s attackerId of
        None \<Rightarrow> (Failed NotFound, s)
      | Some (a, attacker) \<Rightarrow>
          (case find_player s targetId of
             None \<Rightarrow> (Failed NotFound, s)
           | Some (t, target) \<Rightarrow>
               if a = t then (Failed InvalidTransition, s)
               else
                 let h1 = Math_max (Fin 0) (js_sub (health target) dmg);
                     killed = strict_eq h1 (Fin 0);
                     attacker1 = (if killed
                                  then attacker\<lparr> kills := js_add (or0 (kills attacker)) (Fin 1) \<rparr>
                                  else attacker);
                     holder1 = (if killed \<and> flagHolder s = Some t then None else flagHolder s);
                     target1 = target\<lparr> health := (if killed then Fin 100 else h1) \<rparr>;
                     evs1 = (if killed
                             then logEvent now (Respawn_msg (name target) (code target)) (events s)
                             else events s);
                     evs2 = logEvent now
                              (Attack_msg (name attacker) (code attacker)
                                 (name target) (code target) dmg killed) evs1;
                     evs3 = (if killed
                             then logEvent now
                                    (Kill_msg (name attacker) (code attacker)
                                       (name target) (code target)) evs2
                             else evs2)
                 in (Attack_ok attacker1 target1 killed holder1,
                     s\<lparr> players := AList.update a attacker1 (AList.update t target1 (players s)),
                        flagHolder := holder1,
                        events := evs3 \<rparr>)))"

text \<open>
  \<^verbatim>\<open>POST /api/player/heal\<close>. \<open>heal_amount\<close> is the constant \<^verbatim>\<open>amt\<close>.
\<close>

definition heal_amount :: "jsval \<Rightarrow> jsnum" where
  "heal_amount amount = (case amount of JNum d \<Rightarrow> Math_max (Fin 0) d | _ \<Rightarrow> Fin 20)"

definition heal :: "nat \<Rightarrow> jsval \<Rightarrow> jsval \<Rightarrow> jsval \<Rightarrow> match \<Rightarrow> reply \<times> match" where
  "heal now healerId targetId amount s =
     (let amt = heal_amount amount in
      case find_player s targetId of
        None \<Rightarrow> (Failed NotFound, s)
      | Some (t, target) \<Rightarrow>
          if truthy healerId \<and> find_player s healerId = None then (Failed NotFound, s)
          else
            let target1 = target\<lparr> health :=
                            Math_max (Fin 0) (Math_min (Fin 100) (js_add (health target) amt)) \<rparr>;
                healer = (case find_player s healerId of
                            None \<Rightarrow> None
                          | Some (h, hp) \<Rightarrow> Some (name (if h = t then target1 else hp)))
            in (Heal_ok target1,
                s\<lparr> players := AList.update t target1 (players s),
                   events := logEvent now
                               (Heal_msg healer (name target) (code target) amt) (events s) \<rparr>))"

text \<open>\<^verbatim>\<open>POST /api/player/changeTeam\<close>.\<close>

definition changeTeam :: "nat \<Rightarrow> jsval \<Rightarrow> jsval \<Rightarrow> match \<Rightarrow> reply \<times> match" where
  "changeTeam now playerId tm s =
     (case find_player s playerId of
        None \<Rightarrow> (Failed NotFound, s)
      | Some (i, p) \<Rightarrow>
          (case tm of
             JStr k \<Rightarrow>
               if k = [] \<or> teams_get k = Missing then (Failed InvalidInput, s)
               else
                 let p1 = p\<lparr> team := k \<rparr>
                 in (Player_ok p1,
                     s\<lparr> players := AList.update i p1 (players s),
                        events := logEvent now (TeamChange_msg (name p1) (code p1) k) (events s) \<rparr>)
           | _ \<Rightarrow> (Failed InvalidInput, s)))"

text \<open>\<^verbatim>\<open>POST /api/player/leave\<close>, the legacy endpoint.\<close>

definition leave :: "jsval \<Rightarrow> match \<Rightarrow> reply \<times> match" where
  "leave playerId s =
     (case find_player s playerId of
        None \<Rightarrow> (Failed NotFound, s)
      | Some (i, p) \<Rightarrow> (Removed, s\<lparr> players := AList.delete i (players s) \<rparr>))"

text \<open>\<^verbatim>\<open>POST /api/restart\<close>.\<close>

definition restart :: "nat \<Rightarrow> match \<Rightarrow> reply \<times> match" where
  "restart now s =
     (Restarted,
      s\<lparr> players := [],
         teams := (teams s)\<lparr> blue := (blue (teams s))\<lparr> flagsCaptured := 0 \<rparr>,
                             red := (red (teams s))\<lparr> flagsCaptured := 0 \<rparr> \<rparr>,
         flagHolder := None,
         nextPlayerNumber := 4,
         events := logEvent now Match_restarted [] \<rparr>)"

subsection \<open>The engine as a transition system\<close>

datatype request =
    Join jsval string
  | ListPlayers string
  | ListEvents
  | Update jsval jsval jsval
  | Delete string
  | Capture jsval
  | Obtain jsval
  | Attack jsval jsval jsval
  | Heal jsval jsval jsval
  | ChangeTeam jsval jsval
  | Leave jsval
  | Restart

text \<open>One request, handled to completion at the clock reading \<open>now\<close>.\<close>

fun handle :: "nat \<Rightarrow> request \<Rightarrow> match \<Rightarrow> reply \<times> match" where
  "handle now (Join c addr) s = join now c addr s"
| "handle now (ListPlayers addr) s = list_players addr s"
| "handle now ListEvents s = list_events s"
| "handle now (Update i k h) s = update i k h s"
| "handle now (Delete i) s = delete_player now i s"
| "handle now (Capture i) s = capture now i s"
| "handle now (Obtain i) s = obtain_flag now i s"
| "handle now (Attack a t d) s = attack now a t d s"
| "handle now (Heal h t a) s = heal now h t a s"
| "handle now (ChangeTeam i t) s = changeTeam now i t s"
| "handle now (Leave i) s = leave i s"
| "handle now Restart s = restart now s"

text \<open>A run: the requests in order, each with its clock reading.\<close>

fun run :: "match \<Rightarrow> (nat \<times> request) list \<Rightarrow> match" where
  "run s [] = s"
| "run s ((now, r) # rs) = run (snd (handle now r s)) rs"

inductive reachable :: "match \<Rightarrow> bool" where
  reachable_init: "reachable init"
| reachable_step: "reachable s \<Longrightarrow> reachable (snd (handle now r s))"

subsection \<open>Predicates on states and requests\<close>

text \<open>
  The key under which join stores a player is \<^verbatim>\<open>${ip}-${Date.now()}\<close>: the address of
  the player, a dash and a decimal number.
\<close>

definition id_of_ip :: "string \<Rightarrow> string \<Rightarrow> bool" where
  "id_of_ip k a = (\<exists>t. k = a @ ''-'' @ dec t)"

definition ids_ok :: "(string \<times> player) list \<Rightarrow> bool" where
  "ids_ok ps = (\<forall>(k, p) \<in> set ps. id_of_ip k (ip p))"

text \<open>A request to join; the team counts differ by at most one, blue never behind.\<close>

definition is_join :: "request \<Rightarrow> bool" where
  "is_join r = (case r of Join c a \<Rightarrow> True | _ \<Rightarrow> False)"

definition balanced :: "(string \<times> player) list \<Rightarrow> bool" where
  "balanced ps = (team_count ''red'' ps \<le> team_count ''blue'' ps \<and>
                  team_count ''blue'' ps \<le> Suc (team_count ''red'' ps))"

text \<open>The player a reply to Join carries, if it carries one.\<close>

definition joined :: "reply \<Rightarrow> player option" where
  "joined r = (case r of Join_ok i p \<Rightarrow> Some p | _ \<Rightarrow> None)"

text \<open>The holder of the flag, if there is one, is a key of the player map.\<close>

definition holder_ok :: "match \<Rightarrow> bool" where
  "holder_ok s = (case flagHolder s of None \<Rightarrow> True | Some i \<Rightarrow> map_of (players s) i \<noteq> None)"

text \<open>
  Health values: a finite number in [0,100], and an integer in [0,100] (what claim C3
  asks for). \<open>all_health R\<close> says that the health of every player satisfies \<open>R\<close>.
  \<open>health_args\<close> lists the arguments of a request that reach a health field: the health
  of UpdateStats, the damage of Attack and the amount of Heal. \<open>not_NaN\<close> admits every
  argument but the number \<^verbatim>\<open>NaN\<close>; \<open>integral\<close> admits the integers, the two infinities
  and everything that is not a number.
\<close>

definition in_range :: "jsnum \<Rightarrow> bool" where
  "in_range h = (case h of Fin r \<Rightarrow> 0 \<le> r \<and> r \<le> 100 | _ \<Rightarrow> False)"

definition in_range_int :: "jsnum \<Rightarrow> bool" where
  "in_range_int h = (case h of Fin r \<Rightarrow> 0 \<le> r \<and> r \<le> 100 \<and> r = of_int \<lfloor>r\<rfloor> | _ \<Rightarrow> False)"

definition not_NaN :: "jsval \<Rightarrow> bool" where
  "not_NaN v = (v \<noteq> JNum NaN)"

definition integral :: "jsval \<Rightarrow> bool" where
  "integral v = (case v of JNum (Fin r) \<Rightarrow> r = of_int \<lfloor>r\<rfloor> | JNum NaN \<Rightarrow> False | _ \<Rightarrow> True)"

fun health_args :: "request \<Rightarrow> jsval list" where
  "health_args (Update i k h) = [h]"
| "health_args (Attack a t d) = [d]"
| "health_args (Heal h t a) = [a]"
| "health_args _ = []"

definition all_health :: "(jsnum \<Rightarrow> bool) \<Rightarrow> match \<Rightarrow> bool" where
  "all_health R s = list_all (\<lambda>p. R (health p)) (map snd (players s))"

text \<open>Every player is on a team for which \<^verbatim>\<open>teams[team]\<close> is truthy.\<close>

definition team_known :: "match \<Rightarrow> bool" where
  "team_known s = list_all (\<lambda>p. teams_get (team p) \<noteq> Missing) (map snd (players s))"

section \<open>Auxiliary facts\<close>

lemma digit_no_dash: "digit d \<noteq> CHR ''-''"
  by (simp add: digit_def)

lemma dec_no_dash: "CHR ''-'' \<notin> set (dec n)"
proof (induction n rule: dec.induct)
  case (1 n)
  then show ?case
    by (subst dec.simps) (auto simp: digit_no_dash digit_no_dash [symmetric])
qed

lemma dash_split:
  "CHR ''-'' \<notin> set d1 \<Longrightarrow> CHR ''-'' \<notin> set d2 \<Longrightarrow> x @ CHR ''-'' # d1 = y @ CHR ''-'' # d2
   \<Longrightarrow> x = y"
proof (induction x arbitrary: y)
  case Nil
  then show ?case by (cases y) auto
next
  case (Cons c x)
  then show ?case by (cases y) auto
qed

lemma set_update_subset: "set (AList.update k v al) \<subseteq> insert (k, v) (set al)"
  by (induction al) auto

lemma set_delete_subset: "set (AList.delete k al) \<subseteq> set al"
  by (auto simp: AList.delete_eq)

lemma update_fresh: "k \<notin> fst ` set al \<Longrightarrow> AList.update k v al = al @ [(k, v)]"
  by (induction al) auto

lemma ids_ok_Nil: "ids_ok []"
  by (simp add: ids_ok_def)

lemma ids_ok_update:
  assumes "ids_ok ps" and "id_of_ip k (ip p)"
  shows "ids_ok (AList.update k p ps)"
  unfolding ids_ok_def
proof
  fix x assume "x \<in> set (AList.update k p ps)"
  then have "x = (k, p) \<or> x \<in> set ps"
    using set_update_subset [of k p ps] by blast
  then show "case x of (k, p) \<Rightarrow> id_of_ip k (ip p)"
    using assms by (auto simp: ids_ok_def)
qed

lemma ids_ok_delete: "ids_ok ps \<Longrightarrow> ids_ok (AList.delete k ps)"
  using set_delete_subset [of k ps] unfolding ids_ok_def by blast

lemma find_player_SomeD:
  "find_player s v = Some (k, p) \<Longrightarrow> v = JStr k \<and> map_of (players s) k = Some p \<and> (k, p) \<in> set (players s)"
  by (auto simp: find_player_def split: if_splits jsval.splits option.splits dest: map_of_SomeD)

lemma ids_ok_entry: "ids_ok ps \<Longrightarrow> (k, p) \<in> set ps \<Longrightarrow> id_of_ip k (ip p)"
  by (auto simp: ids_ok_def)

lemma fresh_id:
  assumes "ids_ok ps" and "\<not> list_ex (\<lambda>p. ip p = addr) (map snd ps)"
  shows "addr @ ''-'' @ dec now \<notin> fst ` set ps"
proof
  assume "addr @ ''-'' @ dec now \<in> fst ` set ps"
  then obtain p where mem: "(addr @ ''-'' @ dec now, p) \<in> set ps" by auto
  with assms(1) obtain t where "addr @ ''-'' @ dec now = ip p @ ''-'' @ dec t"
    by (auto simp: ids_ok_def id_of_ip_def)
  then have "addr = ip p"
    using dash_split [of "dec now" "dec t" addr "ip p"] by (simp add: dec_no_dash)
  with mem assms(2) show False
    by (force simp: list_ex_iff)
qed


lemma ids_ok_join: "ids_ok (players s) \<Longrightarrow> ids_ok (players (snd (join now cd addr s)))"
  by (auto simp: join_def Let_def id_of_ip_def split: jsval.splits intro!: ids_ok_update)

lemma ids_ok_update_stats: "ids_ok (players s) \<Longrightarrow> ids_ok (players (snd (update i k h s)))"
  by (auto simp: update_def Let_def split: option.splits jsval.splits
      dest!: find_player_SomeD intro!: ids_ok_update dest: ids_ok_entry)

lemma ids_ok_delete_player:
  "ids_ok (players s) \<Longrightarrow> ids_ok (players (snd (delete_player now i s)))"
  by (auto simp: delete_player_def split: option.splits intro: ids_ok_delete)

lemma ids_ok_capture: "ids_ok (players s) \<Longrightarrow> ids_ok (players (snd (capture now i s)))"
  by (auto simp: capture_def Let_def split: option.splits)

lemma ids_ok_obtain: "ids_ok (players s) \<Longrightarrow> ids_ok (players (snd (obtain_flag now i s)))"
  by (auto simp: obtain_flag_def Let_def split: option.splits)

lemma ids_ok_attack: "ids_ok (players s) \<Longrightarrow> ids_ok (players (snd (attack now a t d s)))"
  by (auto simp: attack_def Let_def split: option.splits
      dest!: find_player_SomeD intro!: ids_ok_update dest: ids_ok_entry)

lemma ids_ok_heal: "ids_ok (players s) \<Longrightarrow> ids_ok (players (snd (heal now h t a s)))"
  by (auto simp: heal_def Let_def split: option.splits
      dest!: find_player_SomeD intro!: ids_ok_update dest: ids_ok_entry)

lemma ids_ok_changeTeam: "ids_ok (players s) \<Longrightarrow> ids_ok (players (snd (changeTeam now i t s)))"
  by (auto simp: changeTeam_def Let_def split: option.splits jsval.splits
      dest!: find_player_SomeD intro!: ids_ok_update dest: ids_ok_entry)

lemma ids_ok_leave: "ids_ok (players s) \<Longrightarrow> ids_ok (players (snd (leave i s)))"
  by (auto simp: leave_def split: option.splits intro: ids_ok_delete)

lemma ids_ok_handle: "ids_ok (players s) \<Longrightarrow> ids_ok (players (snd (handle now r s)))"
  by (cases r)
    (simp_all add: ids_ok_join ids_ok_update_stats ids_ok_delete_player ids_ok_capture
      ids_ok_obtain ids_ok_attack ids_ok_heal ids_ok_changeTeam ids_ok_leave
      list_players_def list_events_def restart_def ids_ok_Nil)

lemma reachable_ids_ok: "reachable s \<Longrightarrow> ids_ok (players s)"
  by (induction rule: reachable.induct) (simp_all add: ids_ok_handle init_def ids_ok_Nil)


lemma join_cases:
  "join now cd addr s = (Failed InvalidInput, s) \<or> join now cd addr s = (Failed Conflict, s) \<or>
   (\<exists>c. cd = JNum c \<and> \<not> list_ex (\<lambda>p. ip p = addr) (map snd (players s)) \<and>
     join now cd addr s =
       (Join_ok (addr @ ''-'' @ dec now)
          \<lparr> pid = addr @ ''-'' @ dec now, number = nextPlayerNumber s, code = c,
            name = ''Player '' @ template_num c, ip = addr, team = assignTeam (players s),
            kills = Fin 0, health = Fin 100, joinedAt = now \<rparr>,
        s\<lparr> players := AList.update (addr @ ''-'' @ dec now)
             \<lparr> pid = addr @ ''-'' @ dec now, number = nextPlayerNumber s, code = c,
               name = ''Player '' @ template_num c, ip = addr, team = assignTeam (players s),
               kills = Fin 0, health = Fin 100, joinedAt = now \<rparr> (players s),
           nextPlayerNumber := Suc (nextPlayerNumber s),
           events := logEvent now
             (Join_msg (''Player '' @ template_num c) c (assignTeam (players s)) addr)
             (events s) \<rparr>))"
  by (cases cd) (simp_all add: join_def Let_def)

lemma join_ok_players:
  assumes "ids_ok (players s)" and "fst (join now cd addr s) = Join_ok i p"
  shows "players (snd (join now cd addr s)) = players s @ [(i, p)] \<and>
         team p = assignTeam (players s) \<and> kills p = Fin 0 \<and> health p = Fin 100 \<and>
         number p = nextPlayerNumber s \<and>
         nextPlayerNumber (snd (join now cd addr s)) = Suc (nextPlayerNumber s)"
proof -
  from join_cases [of now cd addr s] assms(2)
  obtain c where fresh: "\<not> list_ex (\<lambda>p. ip p = addr) (map snd (players s))"
    and i: "i = addr @ ''-'' @ dec now"
    and p: "p = \<lparr> pid = addr @ ''-'' @ dec now, number = nextPlayerNumber s, code = c,
            name = ''Player '' @ template_num c, ip = addr, team = assignTeam (players s),
            kills = Fin 0, health = Fin 100, joinedAt = now \<rparr>"
    and s': "players (snd (join now cd addr s)) = AList.update i p (players s)"
    and n: "nextPlayerNumber (snd (join now cd addr s)) = Suc (nextPlayerNumber s)"
    by auto
  from fresh_id [OF assms(1) fresh, of now] i have "i \<notin> fst ` set (players s)" by simp
  then have "AList.update i p (players s) = players s @ [(i, p)]" by (rule update_fresh)
  with s' p n show ?thesis by simp
qed

lemma join_failed_unchanged:
  "fst (join now cd addr s) = Failed e \<Longrightarrow> snd (join now cd addr s) = s"
  using join_cases [of now cd addr s] by auto

lemma valid_code_iff:
  "(\<not> js_lt c (Fin 0) \<and> \<not> js_lt (Fin 99) c \<and> Number_isInteger c) =
   (\<exists>n::nat. n \<le> 99 \<and> c = Fin (real n))"
proof (cases c)
  case (Fin r)
  show ?thesis
  proof
    assume a: "\<not> js_lt c (Fin 0) \<and> \<not> js_lt (Fin 99) c \<and> Number_isInteger c"
    with Fin have r: "0 \<le> r" "r \<le> 99" "r = of_int \<lfloor>r\<rfloor>"
      by (simp_all add: Number_isInteger_def)
    then have fl: "0 \<le> \<lfloor>r\<rfloor>" "\<lfloor>r\<rfloor> \<le> 99" by linarith+
    then have "nat \<lfloor>r\<rfloor> \<le> 99" by linarith
    moreover from fl have "real (nat \<lfloor>r\<rfloor>) = of_int \<lfloor>r\<rfloor>" by simp
    ultimately have "nat \<lfloor>r\<rfloor> \<le> 99" "real (nat \<lfloor>r\<rfloor>) = of_int \<lfloor>r\<rfloor>" by simp_all
    with r(3) Fin show "\<exists>n::nat. n \<le> 99 \<and> c = Fin (real n)" by metis
  next
    assume "\<exists>n::nat. n \<le> 99 \<and> c = Fin (real n)"
    then show "\<not> js_lt c (Fin 0) \<and> \<not> js_lt (Fin 99) c \<and> Number_isInteger c"
      by (auto simp: Number_isInteger_def)
  qed
qed (simp_all add: Number_isInteger_def)


lemma join_invalid:
  "\<not> (\<exists>n::nat. n \<le> 99 \<and> cd = JNum (Fin (real n))) \<Longrightarrow>
   join now cd addr s = (Failed InvalidInput, s)"
proof (cases cd)
  case (JNum c)
  assume "\<not> (\<exists>n::nat. n \<le> 99 \<and> cd = JNum (Fin (real n)))"
  with JNum have "\<not> (\<exists>n::nat. n \<le> 99 \<and> c = Fin (real n))" by simp
  then have "js_lt c (Fin 0) \<or> js_lt (Fin 99) c \<or> \<not> Number_isInteger c"
    using valid_code_iff [of c] by blast
  with JNum show ?thesis by (simp add: join_def)
qed (simp_all add: join_def)

lemma strict_eq_Fin: "strict_eq a (Fin x) = (a = Fin x)"
  by (auto simp: strict_eq_def)

lemma join_conflict:
  assumes "n \<le> 99"
    and "(\<exists>p \<in> snd ` set (players s). code p = Fin (real n)) \<or>
         (\<exists>p \<in> snd ` set (players s). ip p = addr)"
  shows "join now (JNum (Fin (real n))) addr s = (Failed Conflict, s)"
proof -
  have v: "\<not> js_lt (Fin (real n)) (Fin 0) \<and> \<not> js_lt (Fin 99) (Fin (real n)) \<and>
           Number_isInteger (Fin (real n))"
    using valid_code_iff [of "Fin (real n)"] assms(1) by blast
  from assms(2) have "list_ex (\<lambda>p. strict_eq (code p) (Fin (real n))) (map snd (players s)) \<or>
      list_ex (\<lambda>p. ip p = addr) (map snd (players s))"
    by (simp add: list_ex_iff strict_eq_Fin)
  with v show ?thesis by (auto simp: join_def)
qed

lemma team_count_snoc:
  "team_count k (ps @ [(i, p)]) = team_count k ps + (if team p = k then 1 else 0)"
  by (simp add: team_count_def)

lemma balanced_join:
  assumes "ids_ok (players s)" and "balanced (players s)"
  shows "balanced (players (snd (join now cd addr s)))"
proof (cases "fst (join now cd addr s)")
  case (Failed e)
  then show ?thesis using assms(2) by (simp add: join_failed_unchanged)
next
  case (Join_ok i p)
  from join_ok_players [OF assms(1) Join_ok]
  have "players (snd (join now cd addr s)) = players s @ [(i, p)]"
    and "team p = assignTeam (players s)" by simp_all
  with assms(2) show ?thesis
    by (auto simp: balanced_def team_count_snoc assignTeam_def Let_def)
qed (use join_cases [of now cd addr s] in auto)

lemma balanced_run:
  "ids_ok (players s) \<Longrightarrow> balanced (players s) \<Longrightarrow> list_all (\<lambda>(now, r). is_join r) rs \<Longrightarrow>
   balanced (players (run s rs)) \<and> ids_ok (players (run s rs))"
proof (induction rs arbitrary: s)
  case Nil
  then show ?case by simp
next
  case (Cons x rs)
  obtain now r where x: "x = (now, r)" by (cases x)
  with Cons.prems(3) obtain c a where r: "r = Join c a"
    by (cases r) (simp_all add: is_join_def)
  have "ids_ok (players (snd (join now c a s)))" "balanced (players (snd (join now c a s)))"
    using Cons.prems by (simp_all add: ids_ok_join balanced_join)
  with Cons.IH [of "snd (join now c a s)"] Cons.prems(3) x r show ?case by simp
qed

subsection \<open>Evaluating the handlers on concrete requests\<close>

lemmas eval_defs =
  join_def update_def delete_player_def capture_def obtain_flag_def attack_def heal_def
  changeTeam_def leave_def restart_def list_players_def list_events_def
  init_def find_player_def Number_isInteger_def assignTeam_def team_count_def logEvent_def
  dec.simps digit_def template_num_def attack_damage_def heal_amount_def Math_max_def
  Math_min_def js_sub_def strict_eq_def truthy_num_def or0_def teams_get_def
  Object_prototype_keys_def Let_def

lemma after_first_join:
  "snd (join 5 (JNum (Fin 7)) ''a'' init) =
     init\<lparr> players := [(''a-5'', \<lparr> pid = ''a-5'', number = 4, code = Fin 7, name = ''Player 7'',
                          ip = ''a'', team = ''blue'', kills = Fin 0, health = Fin 100,
                          joinedAt = 5 \<rparr>)],
           nextPlayerNumber := 5,
           events := [\<lparr> ts = 5, message = Join_msg ''Player 7'' (Fin 7) ''blue'' ''a'' \<rparr>] \<rparr>"
  by (simp add: eval_defs)


lemma two_players:
  "run init [(5, Join (JNum (Fin 7)) ''a''), (6, Join (JNum (Fin 3)) ''b'')] =
     init\<lparr> players :=
            [(''a-5'', \<lparr> pid = ''a-5'', number = 4, code = Fin 7, name = ''Player 7'',
                         ip = ''a'', team = ''blue'', kills = Fin 0, health = Fin 100,
                         joinedAt = 5 \<rparr>),
             (''b-6'', \<lparr> pid = ''b-6'', number = 5, code = Fin 3, name = ''Player 3'',
                         ip = ''b'', team = ''red'', kills = Fin 0, health = Fin 100,
                         joinedAt = 6 \<rparr>)],
           nextPlayerNumber := 6,
           events := [\<lparr> ts = 5, message = Join_msg ''Player 7'' (Fin 7) ''blue'' ''a'' \<rparr>,
                      \<lparr> ts = 6, message = Join_msg ''Player 3'' (Fin 3) ''red'' ''b'' \<rparr>] \<rparr>"
  by (simp add: eval_defs)

lemma flag_state:
  "run init [(5, Join (JNum (Fin 7)) ''a''), (6, Join (JNum (Fin 3)) ''b''),
       (7, Obtain (JStr ''a-5''))] =
     init\<lparr> players :=
            [(''a-5'', \<lparr> pid = ''a-5'', number = 4, code = Fin 7, name = ''Player 7'',
                         ip = ''a'', team = ''blue'', kills = Fin 0, health = Fin 100,
                         joinedAt = 5 \<rparr>),
             (''b-6'', \<lparr> pid = ''b-6'', number = 5, code = Fin 3, name = ''Player 3'',
                         ip = ''b'', team = ''red'', kills = Fin 0, health = Fin 100,
                         joinedAt = 6 \<rparr>)],
           nextPlayerNumber := 6,
           flagHolder := Some ''a-5'',
           events := [\<lparr> ts = 5, message = Join_msg ''Player 7'' (Fin 7) ''blue'' ''a'' \<rparr>,
                      \<lparr> ts = 6, message = Join_msg ''Player 3'' (Fin 3) ''red'' ''b'' \<rparr>,
                      \<lparr> ts = 7, message = Obtain_msg ''Player 7'' (Fin 7) None \<rparr>] \<rparr>"
  by (simp add: eval_defs)

subsection \<open>What the handlers leave alone\<close>

lemma handle_counter_mono:
  "r \<noteq> Restart \<Longrightarrow> nextPlayerNumber s \<le> nextPlayerNumber (snd (handle now r s))"
proof (cases r)
  case (Join c a)
  then show ?thesis using join_cases [of now c a s] by auto
next
  case (Update i k h)
  then show ?thesis by (simp add: update_def Let_def split: option.splits prod.splits)
next
  case (Delete i)
  then show ?thesis by (simp add: delete_player_def split: option.splits)
next
  case (Capture i)
  then show ?thesis by (simp add: capture_def Let_def split: option.splits prod.splits)
next
  case (Obtain i)
  then show ?thesis by (simp add: obtain_flag_def Let_def split: option.splits prod.splits)
next
  case (Attack a t d)
  then show ?thesis by (simp add: attack_def Let_def split: option.splits prod.splits)
next
  case (Heal h t a)
  then show ?thesis by (simp add: heal_def Let_def split: option.splits prod.splits)
next
  case (ChangeTeam i t)
  then show ?thesis
    by (simp add: changeTeam_def Let_def split: option.splits prod.splits jsval.splits)
next
  case (Leave i)
  then show ?thesis by (simp add: leave_def split: option.splits prod.splits)
qed (simp_all add: list_players_def list_events_def)

lemma run_counter_mono:
  "list_all (\<lambda>(now, r). r \<noteq> Restart) rs \<Longrightarrow> nextPlayerNumber s \<le> nextPlayerNumber (run s rs)"
proof (induction rs arbitrary: s)
  case Nil
  then show ?case by simp
next
  case (Cons x rs)
  obtain now r where x: "x = (now, r)" by (cases x)
  with Cons.prems have "r \<noteq> Restart" "list_all (\<lambda>(now, r). r \<noteq> Restart) rs" by simp_all
  with handle_counter_mono [of r s now] Cons.IH [of "snd (handle now r s)"] x
  show ?case by simp
qed

lemma capture_teams:
  "teams (snd (capture now i s)) = teams s \<or>
   (\<exists>k n h. fst (capture now i s) = Capture_ok k n h)"
  by (auto simp: capture_def Let_def split: option.splits)

lemma capture_names:
  "tname (blue (teams (snd (capture now i s)))) = tname (blue (teams s)) \<and>
   color (blue (teams (snd (capture now i s)))) = color (blue (teams s)) \<and>
   tname (red (teams (snd (capture now i s)))) = tname (red (teams s)) \<and>
   color (red (teams (snd (capture now i s)))) = color (red (teams s))"
  by (auto simp: capture_def Let_def split: option.splits team_slot.splits)

lemma other_teams:
  "(\<forall>i. r \<noteq> Capture i) \<Longrightarrow> r \<noteq> Restart \<Longrightarrow> teams (snd (handle now r s)) = teams s"
proof (cases r)
  case (Join c a)
  then show ?thesis using join_cases [of now c a s] by auto
next
  case (Update i k h)
  then show ?thesis by (simp add: update_def Let_def split: option.splits prod.splits)
next
  case (Delete i)
  then show ?thesis by (simp add: delete_player_def split: option.splits)
next
  case (Obtain i)
  then show ?thesis by (simp add: obtain_flag_def Let_def split: option.splits prod.splits)
next
  case (Attack a t d)
  then show ?thesis by (simp add: attack_def Let_def split: option.splits prod.splits)
next
  case (Heal h t a)
  then show ?thesis by (simp add: heal_def Let_def split: option.splits prod.splits)
next
  case (ChangeTeam i t)
  then show ?thesis
    by (simp add: changeTeam_def Let_def split: option.splits prod.splits jsval.splits)
next
  case (Leave i)
  then show ?thesis by (simp add: leave_def split: option.splits prod.splits)
qed (simp_all add: list_players_def list_events_def)

lemma logEvent_bound: "length evs \<le> 2000 \<Longrightarrow> length (logEvent now m evs) \<le> 2000"
  by (simp add: logEvent_def Let_def)

lemma events_handle: "length (events s) \<le> 2000 \<Longrightarrow> length (events (snd (handle now r s))) \<le> 2000"
proof (cases r)
  case (Join c a)
  assume "length (events s) \<le> 2000"
  with Join show ?thesis using join_cases [of now c a s] by (auto simp: logEvent_bound)
next
  case (Update i k h)
  assume "length (events s) \<le> 2000"
  with Update show ?thesis by (simp add: update_def Let_def split: option.splits prod.splits)
next
  case (Delete i)
  assume "length (events s) \<le> 2000"
  with Delete show ?thesis by (simp add: delete_player_def logEvent_bound split: option.splits)
next
  case (Capture i)
  assume "length (events s) \<le> 2000"
  with Capture show ?thesis
    by (simp add: capture_def Let_def logEvent_bound split: option.splits prod.splits)
next
  case (Obtain i)
  assume "length (events s) \<le> 2000"
  with Obtain show ?thesis
    by (simp add: obtain_flag_def Let_def logEvent_bound split: option.splits prod.splits)
next
  case (Attack a t d)
  assume "length (events s) \<le> 2000"
  with Attack show ?thesis
    by (simp add: attack_def Let_def logEvent_bound split: option.splits prod.splits)
next
  case (Heal h t a)
  assume "length (events s) \<le> 2000"
  with Heal show ?thesis
    by (simp add: heal_def Let_def logEvent_bound split: option.splits prod.splits)
next
  case (ChangeTeam i t)
  assume "length (events s) \<le> 2000"
  with ChangeTeam show ?thesis
    by (simp add: changeTeam_def Let_def logEvent_bound
        split: option.splits prod.splits jsval.splits)
next
  case (Leave i)
  assume "length (events s) \<le> 2000"
  with Leave show ?thesis by (simp add: leave_def split: option.splits prod.splits)
next
  case Restart
  then show ?thesis by (simp add: restart_def logEvent_def)
qed (simp_all add: list_players_def list_events_def)

lemma reachable_events: "reachable s \<Longrightarrow> length (events s) \<le> 2000"
  by (induction rule: reachable.induct) (simp_all add: events_handle init_def)

subsection \<open>The flag holder and captures\<close>

lemma holder_ok_handle:
  assumes "holder_ok s" and "\<forall>i. r \<noteq> Leave i"
  shows "holder_ok (snd (handle now r s))"
proof (cases r)
  case (Join c a)
  from join_cases [of now c a s] assms(1) Join show ?thesis
    by (auto simp: holder_ok_def update_conv' split: option.splits)
next
  case (Update i k h)
  with assms(1) show ?thesis
    by (auto simp: update_def Let_def holder_ok_def update_conv' split: option.splits)
next
  case (Delete i)
  with assms(1) show ?thesis
    by (auto simp: delete_player_def holder_ok_def delete_conv' split: option.splits)
next
  case (Capture i)
  with assms(1) show ?thesis
    by (auto simp: capture_def Let_def holder_ok_def split: option.splits)
next
  case (Obtain i)
  with assms(1) show ?thesis
    by (auto simp: obtain_flag_def Let_def holder_ok_def split: option.splits
        dest!: find_player_SomeD)
next
  case (Attack a t d)
  with assms(1) show ?thesis
    by (auto simp: attack_def Let_def holder_ok_def update_conv' split: option.splits)
next
  case (Heal h t a)
  with assms(1) show ?thesis
    by (auto simp: heal_def Let_def holder_ok_def update_conv' split: option.splits)
next
  case (ChangeTeam i t)
  with assms(1) show ?thesis
    by (auto simp: changeTeam_def Let_def holder_ok_def update_conv'
        split: option.splits jsval.splits)
next
  case (Leave i)
  with assms(2) show ?thesis by simp
next
  case Restart
  then show ?thesis by (simp add: restart_def holder_ok_def)
qed (use assms(1) in \<open>simp_all add: list_players_def list_events_def holder_ok_def\<close>)

lemma capture_own_team:
  assumes "find_player s playerId = Some (i, p)" and "team p = ''blue'' \<or> team p = ''red''"
  shows "(flagHolder s \<noteq> Some i \<longrightarrow> capture now playerId s = (Failed InvalidTransition, s)) \<and>
         (flagHolder s = Some i \<longrightarrow>
            (\<exists>k n. fst (capture now playerId s) = Capture_ok k n None) \<and>
            flagHolder (snd (capture now playerId s)) = None \<and>
            flagsCaptured (blue (teams (snd (capture now playerId s)))) =
              flagsCaptured (blue (teams s)) + (if team p = ''blue'' then 1 else 0) \<and>
            flagsCaptured (red (teams (snd (capture now playerId s)))) =
              flagsCaptured (red (teams s)) + (if team p = ''red'' then 1 else 0))"
  using assms by (auto simp: capture_def Let_def teams_get_def)

subsection \<open>Attack and health\<close>

lemma map_of_update_same: "map_of (AList.update k v al) k = Some v"
  by (simp add: update_conv')

lemma map_of_update_other: "k' \<noteq> k \<Longrightarrow> map_of (AList.update k v al) k' = map_of al k'"
  by (simp add: update_conv')

lemma or0_Fin: "js_add (or0 (Fin k)) (Fin 1) = Fin (k + 1)"
  by (simp add: or0_def truthy_num_def)

lemma attack_ok:
  assumes "find_player s attackerId = Some (a, attacker)"
    and "find_player s targetId = Some (t, target)"
    and "a \<noteq> t"
  shows "attack now attackerId targetId damage s =
     (let dmg = attack_damage damage;
          h1 = Math_max (Fin 0) (js_sub (health target) dmg);
          killed = strict_eq h1 (Fin 0);
          attacker1 = (if killed
                       then attacker\<lparr> kills := js_add (or0 (kills attacker)) (Fin 1) \<rparr>
                       else attacker);
          holder1 = (if killed \<and> flagHolder s = Some t then None else flagHolder s);
          target1 = target\<lparr> health := (if killed then Fin 100 else h1) \<rparr>;
          evs1 = (if killed
                  then logEvent now (Respawn_msg (name target) (code target)) (events s)
                  else events s);
          evs2 = logEvent now
                   (Attack_msg (name attacker) (code attacker)
                      (name target) (code target) dmg killed) evs1;
          evs3 = (if killed
                  then logEvent now
                         (Kill_msg (name attacker) (code attacker)
                            (name target) (code target)) evs2
                  else evs2)
      in (Attack_ok attacker1 target1 killed holder1,
          s\<lparr> players := AList.update a attacker1 (AList.update t target1 (players s)),
             flagHolder := holder1,
             events := evs3 \<rparr>))"
  using assms by (simp add: attack_def)

lemma all_update:
  "list_all Q (map snd ps) \<Longrightarrow> Q v \<Longrightarrow> list_all Q (map snd (AList.update k v ps))"
  using set_update_subset [of k v ps] by (auto simp: list_all_iff)

lemma all_delete: "list_all Q (map snd ps) \<Longrightarrow> list_all Q (map snd (AList.delete k ps))"
  using set_delete_subset [of k ps] by (auto simp: list_all_iff)

lemma all_find: "list_all Q (map snd (players s)) \<Longrightarrow> find_player s v = Some (k, p) \<Longrightarrow> Q p"
  by (drule find_player_SomeD) (auto simp: list_all_iff)

lemma clamp_in_range: "n \<noteq> NaN \<Longrightarrow> in_range (Math_max (Fin 0) (Math_min (Fin 100) n))"
  by (cases n) (auto simp: Math_max_def Math_min_def in_range_def)

lemma damage_cases:
  "d \<noteq> JNum NaN \<Longrightarrow> attack_damage d = PosInf \<or> (\<exists>x. attack_damage d = Fin x \<and> 0 \<le> x)"
proof (cases d)
  case (JNum n)
  assume "d \<noteq> JNum NaN"
  with JNum show ?thesis by (cases n) (auto simp: attack_damage_def Math_max_def)
qed (simp_all add: attack_damage_def)

lemma amount_cases:
  "d \<noteq> JNum NaN \<Longrightarrow> heal_amount d = PosInf \<or> (\<exists>x. heal_amount d = Fin x \<and> 0 \<le> x)"
proof (cases d)
  case (JNum n)
  assume "d \<noteq> JNum NaN"
  with JNum show ?thesis by (cases n) (auto simp: heal_amount_def Math_max_def)
qed (simp_all add: heal_amount_def)

lemma attack_in_range:
  assumes "in_range h" and "d \<noteq> JNum NaN"
  shows "in_range (if strict_eq (Math_max (Fin 0) (js_sub h (attack_damage d))) (Fin 0)
                   then Fin 100 else Math_max (Fin 0) (js_sub h (attack_damage d)))"
proof -
  from assms(1) obtain r where h: "h = Fin r" "0 \<le> r" "r \<le> 100"
    by (cases h) (simp_all add: in_range_def)
  from damage_cases [OF assms(2)] h show ?thesis
    by (auto simp: js_sub_def Math_max_def in_range_def strict_eq_def)
qed

lemma heal_in_range:
  assumes "in_range h" and "d \<noteq> JNum NaN"
  shows "in_range (Math_max (Fin 0) (Math_min (Fin 100) (js_add h (heal_amount d))))"
proof -
  from assms(1) obtain r where h: "h = Fin r" "0 \<le> r" "r \<le> 100"
    by (cases h) (simp_all add: in_range_def)
  from amount_cases [OF assms(2)] h show ?thesis
    by (auto simp: Math_max_def Math_min_def in_range_def)
qed

lemma handle_health:
  assumes inv: "all_health R s"
    and full: "R (Fin 100)"
    and upd: "\<And>i k n. r = Update i k (JNum n) \<Longrightarrow> R (Math_max (Fin 0) (Math_min (Fin 100) n))"
    and att: "\<And>a t d h. r = Attack a t d \<Longrightarrow> R h \<Longrightarrow>
        R (if strict_eq (Math_max (Fin 0) (js_sub h (attack_damage d))) (Fin 0)
           then Fin 100 else Math_max (Fin 0) (js_sub h (attack_damage d)))"
    and hea: "\<And>x t a h. r = Heal x t a \<Longrightarrow> R h \<Longrightarrow>
        R (Math_max (Fin 0) (Math_min (Fin 100) (js_add h (heal_amount a))))"
  shows "all_health R (snd (handle now r s))"
proof (cases r)
  case (Join c a)
  from join_cases [of now c a s] inv full Join show ?thesis
    by (auto simp: all_health_def intro!: all_update)
next
  case (ListPlayers a)
  with inv show ?thesis by (simp add: list_players_def)
next
  case ListEvents
  with inv show ?thesis by (simp add: list_events_def)
next
  case (Update i k h)
  show ?thesis
  proof (cases "find_player s i")
    case None
    with Update inv show ?thesis by (simp add: update_def)
  next
    case (Some kp)
    obtain key p where kp: "kp = (key, p)" by (cases kp)
    from inv Some kp have p: "R (health p)"
      using all_find [of "\<lambda>p. R (health p)" s i key p] by (simp add: all_health_def)
    let ?p1 = "case k of JNum n \<Rightarrow> p\<lparr> kills := Math_max (Fin 0) n \<rparr> | _ \<Rightarrow> p"
    have p1: "health ?p1 = health p" by (cases k) simp_all
    let ?p2 = "case h of JNum n \<Rightarrow> ?p1\<lparr> health := Math_max (Fin 0) (Math_min (Fin 100) n) \<rparr>
               | _ \<Rightarrow> ?p1"
    have "R (health ?p2)"
    proof (cases h)
      case (JNum n)
      with upd [of i k n] Update show ?thesis by simp
    qed (simp_all add: p1 p)
    with inv have "list_all (\<lambda>p. R (health p)) (map snd (AList.update key ?p2 (players s)))"
      unfolding all_health_def by (rule all_update)
    with Update Some kp show ?thesis by (simp add: update_def Let_def all_health_def)
  qed
next
  case (Delete i)
  with inv show ?thesis
    by (auto simp: delete_player_def all_health_def split: option.splits intro: all_delete)
next
  case (Capture i)
  with inv show ?thesis
    by (auto simp: capture_def Let_def all_health_def split: option.splits)
next
  case (Obtain i)
  with inv show ?thesis
    by (auto simp: obtain_flag_def Let_def all_health_def split: option.splits)
next
  case (Attack ai ti d)
  show ?thesis
  proof (cases "find_player s ai")
    case None
    with Attack inv show ?thesis by (simp add: attack_def)
  next
    case sa: (Some ap)
    obtain a attacker where ap: "ap = (a, attacker)" by (cases ap)
    show ?thesis
    proof (cases "find_player s ti")
      case None
      with Attack inv sa ap show ?thesis by (simp add: attack_def)
    next
      case st: (Some tp)
      obtain t target where tp: "tp = (t, target)" by (cases tp)
      show ?thesis
      proof (cases "a = t")
        case True
        with Attack inv sa ap st tp show ?thesis by (simp add: attack_def)
      next
        case False
        from inv sa ap have ra: "R (health attacker)"
          using all_find [of "\<lambda>p. R (health p)" s ai a attacker] by (simp add: all_health_def)
        from inv st tp have rt: "R (health target)"
          using all_find [of "\<lambda>p. R (health p)" s ti t target] by (simp add: all_health_def)
        let ?h1 = "Math_max (Fin 0) (js_sub (health target) (attack_damage d))"
        let ?t1 = "target\<lparr> health := (if strict_eq ?h1 (Fin 0) then Fin 100 else ?h1) \<rparr>"
        let ?a1 = "if strict_eq ?h1 (Fin 0)
                   then attacker\<lparr> kills := js_add (or0 (kills attacker)) (Fin 1) \<rparr> else attacker"
        from att [OF Attack rt] have "R (health ?t1)" by simp
        with inv have 1: "list_all (\<lambda>p. R (health p)) (map snd (AList.update t ?t1 (players s)))"
          unfolding all_health_def by (rule all_update)
        from ra have "R (health ?a1)" by simp
        with 1 have "list_all (\<lambda>p. R (health p))
            (map snd (AList.update a ?a1 (AList.update t ?t1 (players s))))"
          by (rule all_update)
        with Attack False attack_ok [of s ai a attacker ti t target now d] sa ap st tp
        show ?thesis by (simp add: Let_def all_health_def)
      qed
    qed
  qed
next
  case (Heal hi ti am)
  show ?thesis
  proof (cases "find_player s ti")
    case None
    with Heal inv show ?thesis by (simp add: heal_def)
  next
    case st: (Some tp)
    obtain t target where tp: "tp = (t, target)" by (cases tp)
    from inv st tp have rt: "R (health target)"
      using all_find [of "\<lambda>p. R (health p)" s ti t target] by (simp add: all_health_def)
    let ?t1 = "target\<lparr> health :=
        Math_max (Fin 0) (Math_min (Fin 100) (js_add (health target) (heal_amount am))) \<rparr>"
    from hea [OF Heal rt] have "R (health ?t1)" by simp
    with inv have "list_all (\<lambda>p. R (health p)) (map snd (AList.update t ?t1 (players s)))"
      unfolding all_health_def by (rule all_update)
    with Heal st tp inv show ?thesis by (simp add: heal_def Let_def all_health_def)
  qed
next
  case (ChangeTeam i tm)
  show ?thesis
  proof (cases "find_player s i")
    case None
    with ChangeTeam inv show ?thesis by (simp add: changeTeam_def)
  next
    case (Some kp)
    obtain key p where kp: "kp = (key, p)" by (cases kp)
    from inv Some kp have p: "R (health p)"
      using all_find [of "\<lambda>p. R (health p)" s i key p] by (simp add: all_health_def)
    then have "\<And>k. R (health (p\<lparr> team := k \<rparr>))" by simp
    with inv have "\<And>k. list_all (\<lambda>p. R (health p))
        (map snd (AList.update key (p\<lparr> team := k \<rparr>) (players s)))"
      unfolding all_health_def by (rule all_update)
    with ChangeTeam Some kp inv show ?thesis
      by (cases tm) (simp_all add: changeTeam_def Let_def all_health_def)
  qed
next
  case (Leave i)
  with inv show ?thesis
    by (auto simp: leave_def all_health_def split: option.splits intro: all_delete)
next
  case Restart
  then show ?thesis by (simp add: restart_def all_health_def)
qed

lemma is_int_Ints: "(r = of_int \<lfloor>r\<rfloor>) = (r \<in> \<int>)" for r :: real
proof
  assume "r = of_int \<lfloor>r\<rfloor>"
  then show "r \<in> \<int>" by (metis Ints_of_int)
next
  assume "r \<in> \<int>"
  then show "r = of_int \<lfloor>r\<rfloor>" by (auto elim: Ints_cases)
qed

lemma in_range_int_iff: "in_range_int h = (\<exists>r. h = Fin r \<and> 0 \<le> r \<and> r \<le> 100 \<and> r \<in> \<int>)"
  by (cases h) (simp_all add: in_range_int_def is_int_Ints)

lemma clamp_in_range_int:
  "integral (JNum n) \<Longrightarrow> in_range_int (Math_max (Fin 0) (Math_min (Fin 100) n))"
  by (cases n) (auto simp: Math_max_def Math_min_def in_range_int_iff integral_def is_int_Ints)

lemma damage_int_cases:
  "integral d \<Longrightarrow>
   attack_damage d = PosInf \<or> (\<exists>x. attack_damage d = Fin x \<and> 0 \<le> x \<and> x \<in> \<int>)"
proof (cases d)
  case (JNum n)
  assume "integral d"
  with JNum show ?thesis
    by (cases n) (auto simp: attack_damage_def Math_max_def integral_def is_int_Ints)
qed (simp_all add: attack_damage_def)

lemma amount_int_cases:
  "integral d \<Longrightarrow>
   heal_amount d = PosInf \<or> (\<exists>x. heal_amount d = Fin x \<and> 0 \<le> x \<and> x \<in> \<int>)"
proof (cases d)
  case (JNum n)
  assume "integral d"
  with JNum show ?thesis
    by (cases n) (auto simp: heal_amount_def Math_max_def integral_def is_int_Ints)
qed (simp_all add: heal_amount_def)

lemma attack_in_range_int:
  assumes "in_range_int h" and "integral d"
  shows "in_range_int (if strict_eq (Math_max (Fin 0) (js_sub h (attack_damage d))) (Fin 0)
                       then Fin 100 else Math_max (Fin 0) (js_sub h (attack_damage d)))"
proof -
  from assms(1) obtain r where h: "h = Fin r" "0 \<le> r" "r \<le> 100" "r \<in> \<int>"
    by (auto simp: in_range_int_iff)
  from damage_int_cases [OF assms(2)] h show ?thesis
    by (auto simp: js_sub_def Math_max_def in_range_int_iff strict_eq_def)
qed

lemma heal_in_range_int:
  assumes "in_range_int h" and "integral d"
  shows "in_range_int (Math_max (Fin 0) (Math_min (Fin 100) (js_add h (heal_amount d))))"
proof -
  from assms(1) obtain r where h: "h = Fin r" "0 \<le> r" "r \<le> 100" "r \<in> \<int>"
    by (auto simp: in_range_int_iff)
  from amount_int_cases [OF assms(2)] h show ?thesis
    by (auto simp: Math_max_def Math_min_def in_range_int_iff)
qed

lemma handle_in_range:
  assumes "all_health in_range s" and "list_all not_NaN (health_args r)"
  shows "all_health in_range (snd (handle now r s))"
proof (rule handle_health [OF assms(1)])
  show "in_range (Fin 100)" by (simp add: in_range_def)
next
  fix i k n assume "r = Update i k (JNum n)"
  with assms(2) show "in_range (Math_max (Fin 0) (Math_min (Fin 100) n))"
    by (auto simp: not_NaN_def intro: clamp_in_range)
next
  fix a t d h assume "r = Attack a t d" "in_range h"
  with assms(2)
  show "in_range (if strict_eq (Math_max (Fin 0) (js_sub h (attack_damage d))) (Fin 0)
                  then Fin 100 else Math_max (Fin 0) (js_sub h (attack_damage d)))"
    by (intro attack_in_range) (simp_all add: not_NaN_def)
next
  fix x t a h assume "r = Heal x t a" "in_range h"
  with assms(2)
  show "in_range (Math_max (Fin 0) (Math_min (Fin 100) (js_add h (heal_amount a))))"
    by (intro heal_in_range) (simp_all add: not_NaN_def)
qed

lemma handle_in_range_int:
  assumes "all_health in_range_int s" and "list_all integral (health_args r)"
  shows "all_health in_range_int (snd (handle now r s))"
proof (rule handle_health [OF assms(1)])
  show "in_range_int (Fin 100)" by (simp add: in_range_int_def)
next
  fix i k n assume "r = Update i k (JNum n)"
  with assms(2) show "in_range_int (Math_max (Fin 0) (Math_min (Fin 100) n))"
    by (auto intro: clamp_in_range_int)
next
  fix a t d h assume "r = Attack a t d" "in_range_int h"
  with assms(2)
  show "in_range_int (if strict_eq (Math_max (Fin 0) (js_sub h (attack_damage d))) (Fin 0)
                  then Fin 100 else Math_max (Fin 0) (js_sub h (attack_damage d)))"
    by (intro attack_in_range_int) simp_all
next
  fix x t a h assume "r = Heal x t a" "in_range_int h"
  with assms(2)
  show "in_range_int (Math_max (Fin 0) (Math_min (Fin 100) (js_add h (heal_amount a))))"
    by (intro heal_in_range_int) simp_all
qed

lemma run_in_range:
  "all_health in_range s \<Longrightarrow> list_all (\<lambda>(now, r). list_all not_NaN (health_args r)) rs \<Longrightarrow>
   all_health in_range (run s rs)"
proof (induction rs arbitrary: s)
  case Nil
  then show ?case by simp
next
  case (Cons x rs)
  obtain now r where x: "x = (now, r)" by (cases x)
  with Cons.prems have "list_all not_NaN (health_args r)"
    "list_all (\<lambda>(now, r). list_all not_NaN (health_args r)) rs" by simp_all
  with handle_in_range [OF Cons.prems(1), of r now] Cons.IH [of "snd (handle now r s)"] x
  show ?case by simp
qed

subsection \<open>Capture in reachable states\<close>

lemma assignTeam_known: "teams_get (assignTeam ps) \<noteq> Missing"
  by (simp add: assignTeam_def teams_get_def Let_def)

lemma team_known_handle:
  assumes "team_known s"
  shows "team_known (snd (handle now r s))"
proof (cases r)
  case (Join c a)
  from join_cases [of now c a s] assms Join show ?thesis
    by (auto simp: team_known_def assignTeam_known intro!: all_update)
next
  case (Update i k h)
  with assms show ?thesis
    by (auto simp: update_def Let_def team_known_def split: option.splits jsval.splits
        intro!: all_update dest: all_find)
next
  case (Delete i)
  with assms show ?thesis
    by (auto simp: delete_player_def team_known_def split: option.splits intro: all_delete)
next
  case (Capture i)
  with assms show ?thesis
    by (auto simp: capture_def Let_def team_known_def split: option.splits)
next
  case (Obtain i)
  with assms show ?thesis
    by (auto simp: obtain_flag_def Let_def team_known_def split: option.splits)
next
  case (Attack a t d)
  with assms show ?thesis
    by (auto simp: attack_def Let_def team_known_def split: option.splits
        intro!: all_update dest: all_find)
next
  case (Heal h t a)
  with assms show ?thesis
    by (auto simp: heal_def Let_def team_known_def split: option.splits
        intro!: all_update dest: all_find)
next
  case (ChangeTeam i t)
  with assms show ?thesis
    by (auto simp: changeTeam_def Let_def team_known_def split: option.splits jsval.splits
        intro!: all_update)
next
  case (Leave i)
  with assms show ?thesis
    by (auto simp: leave_def team_known_def split: option.splits intro: all_delete)
next
  case Restart
  then show ?thesis by (simp add: restart_def team_known_def)
qed (use assms in \<open>simp_all add: list_players_def list_events_def team_known_def\<close>)

lemma reachable_team_known: "reachable s \<Longrightarrow> team_known s"
  by (induction rule: reachable.induct) (simp_all add: team_known_handle, simp add: team_known_def init_def)

lemma capture_iff_holder:
  assumes "reachable s" and "find_player s playerId = Some (i, p)"
  shows "((\<exists>k n h. fst (capture now playerId s) = Capture_ok k n h) = (flagHolder s = Some i)) \<and>
         (flagHolder s \<noteq> Some i \<longrightarrow> capture now playerId s = (Failed InvalidTransition, s)) \<and>
         (flagHolder s = Some i \<longrightarrow> flagHolder (snd (capture now playerId s)) = None)"
proof -
  from reachable_team_known [OF assms(1)] assms(2) have "teams_get (team p) \<noteq> Missing"
    using all_find [of "\<lambda>p. teams_get (team p) \<noteq> Missing" s playerId i p]
    by (simp add: team_known_def)
  with assms(2) show ?thesis by (auto simp: capture_def Let_def)
qed

section \<open>Restart\<close>

text \<open>
  C8. After Restart, from any state whatever: the player set is empty, both capture
  counters are 0, no player holds the flag, the next player number is 4, and the event
  log holds exactly one entry, the "Match restarted" event.
\<close>

theorem restart_resets:
  "players (snd (restart now s)) = [] \<and>
   flagsCaptured (blue (teams (snd (restart now s)))) = 0 \<and>
   flagsCaptured (red (teams (snd (restart now s)))) = 0 \<and>
   flagHolder (snd (restart now s)) = None \<and>
   nextPlayerNumber (snd (restart now s)) = 4 \<and>
   events (snd (restart now s)) = [\<lparr> ts = now, message = Match_restarted \<rparr>] \<and>
   snd (handle now Restart s) = snd (restart now s)"
  by (simp add: restart_def logEvent_def)

section \<open>Join\<close>

text \<open>
  C5. In every reachable state, Join fails with InvalidInput (HTTP 400) whenever the code
  is not an integer in [0,99]; with a code in that range it fails with Conflict
  (HTTP 409) whenever the code or the address is already used by an active player (the
  code is validated first, as the specification lists the checks); a failing Join
  returns the state it was given, unchanged; a successful Join appends exactly one
  player, with kills = 0 and health = 100; and Join has no other outcome.
\<close>

theorem join_spec:
  assumes "reachable s"
  shows "(\<not> (\<exists>n::nat. n \<le> 99 \<and> cd = JNum (Fin (real n))) \<longrightarrow>
            join now cd addr s = (Failed InvalidInput, s)) \<and>
         (n \<le> 99 \<and> ((\<exists>p \<in> snd ` set (players s). code p = Fin (real n)) \<or>
                      (\<exists>p \<in> snd ` set (players s). ip p = addr)) \<longrightarrow>
            join now (JNum (Fin (real n))) addr s = (Failed Conflict, s)) \<and>
         (\<forall>e. fst (join now cd addr s) = Failed e \<longrightarrow> snd (join now cd addr s) = s) \<and>
         (\<forall>i p. fst (join now cd addr s) = Join_ok i p \<longrightarrow>
            players (snd (join now cd addr s)) = players s @ [(i, p)] \<and>
            kills p = Fin 0 \<and> health p = Fin 100) \<and>
         ((\<exists>e. fst (join now cd addr s) = Failed e) \<or>
          (\<exists>i p. fst (join now cd addr s) = Join_ok i p)) \<and>
         http_status InvalidInput = 400 \<and> http_status Conflict = 409"
proof -
  have ok: "ids_ok (players s)" using assms by (rule reachable_ids_ok)
  have "\<not> (\<exists>n::nat. n \<le> 99 \<and> cd = JNum (Fin (real n))) \<longrightarrow>
            join now cd addr s = (Failed InvalidInput, s)"
    using join_invalid by blast
  moreover have "n \<le> 99 \<and> ((\<exists>p \<in> snd ` set (players s). code p = Fin (real n)) \<or>
                      (\<exists>p \<in> snd ` set (players s). ip p = addr)) \<longrightarrow>
            join now (JNum (Fin (real n))) addr s = (Failed Conflict, s)"
    using join_conflict by blast
  moreover have "\<forall>e. fst (join now cd addr s) = Failed e \<longrightarrow> snd (join now cd addr s) = s"
    using join_failed_unchanged by blast
  moreover have "\<forall>i p. fst (join now cd addr s) = Join_ok i p \<longrightarrow>
            players (snd (join now cd addr s)) = players s @ [(i, p)] \<and>
            kills p = Fin 0 \<and> health p = Fin 100"
    using join_ok_players [OF ok] by blast
  moreover have "(\<exists>e. fst (join now cd addr s) = Failed e) \<or>
          (\<exists>i p. fst (join now cd addr s) = Join_ok i p)"
    using join_cases [of now cd addr s] by auto
  ultimately show ?thesis by simp
qed

theorem join_spec_witness:
  "join 9 (JNum (Fin 100)) ''b'' (snd (handle 5 (Join (JNum (Fin 7)) ''a'') init)) =
     (Failed InvalidInput, snd (handle 5 (Join (JNum (Fin 7)) ''a'') init)) \<and>
   join 9 (JNum (Fin 7)) ''b'' (snd (handle 5 (Join (JNum (Fin 7)) ''a'') init)) =
     (Failed Conflict, snd (handle 5 (Join (JNum (Fin 7)) ''a'') init)) \<and>
   join 9 (JNum (Fin 3)) ''a'' (snd (handle 5 (Join (JNum (Fin 7)) ''a'') init)) =
     (Failed Conflict, snd (handle 5 (Join (JNum (Fin 7)) ''a'') init)) \<and>
   snd (join 9 (JStr ''7'') ''b'' (snd (handle 5 (Join (JNum (Fin 7)) ''a'') init))) =
     snd (handle 5 (Join (JNum (Fin 7)) ''a'') init) \<and>
   players (snd (join 9 (JNum (Fin 3)) ''b'' (snd (handle 5 (Join (JNum (Fin 7)) ''a'') init)))) =
     players (snd (handle 5 (Join (JNum (Fin 7)) ''a'') init)) @
       [(''b-9'', \<lparr> pid = ''b-9'', number = 5, code = Fin 3, name = ''Player 3'',
                    ip = ''b'', team = ''red'', kills = Fin 0, health = Fin 100,
                    joinedAt = 9 \<rparr>)]"
proof -
  let ?S = "snd (handle 5 (Join (JNum (Fin 7)) ''a'') init)"
  have r: "reachable ?S" by (rule reachable_step [OF reachable_init])
  note S = after_first_join
  have "\<not> (\<exists>n::nat. n \<le> 99 \<and> JNum (Fin 100) = JNum (Fin (real n)))" by auto
  with join_spec [OF r, of "JNum (Fin 100)" 9 "''b''"]
  have 1: "join 9 (JNum (Fin 100)) ''b'' ?S = (Failed InvalidInput, ?S)" by blast
  have "(7::nat) \<le> 99 \<and> ((\<exists>p \<in> snd ` set (players ?S). code p = Fin (real (7::nat))) \<or>
                      (\<exists>p \<in> snd ` set (players ?S). ip p = ''b''))"
    by (simp add: S)
  with join_spec [OF r, of JNull 9 "''b''" 7]
  have 2: "join 9 (JNum (Fin 7)) ''b'' ?S = (Failed Conflict, ?S)" by auto
  have "(3::nat) \<le> 99 \<and> ((\<exists>p \<in> snd ` set (players ?S). code p = Fin (real (3::nat))) \<or>
                      (\<exists>p \<in> snd ` set (players ?S). ip p = ''a''))"
    by (simp add: S)
  with join_spec [OF r, of JNull 9 "''a''" 3]
  have 3: "join 9 (JNum (Fin 3)) ''a'' ?S = (Failed Conflict, ?S)" by auto
  have "fst (join 9 (JStr ''7'') ''b'' ?S) = Failed InvalidInput" by (simp add: join_def)
  with join_spec [OF r, of "JStr ''7''" 9 "''b''"]
  have 4: "snd (join 9 (JStr ''7'') ''b'' ?S) = ?S" by blast
  have "fst (join 9 (JNum (Fin 3)) ''b'' ?S) =
     Join_ok ''b-9'' \<lparr> pid = ''b-9'', number = 5, code = Fin 3, name = ''Player 3'',
                    ip = ''b'', team = ''red'', kills = Fin 0, health = Fin 100,
                    joinedAt = 9 \<rparr>"
    by (simp add: S) (simp add: eval_defs)
  with join_spec [OF r, of "JNum (Fin 3)" 9 "''b''"]
  have 5: "players (snd (join 9 (JNum (Fin 3)) ''b'' ?S)) = players ?S @
       [(''b-9'', \<lparr> pid = ''b-9'', number = 5, code = Fin 3, name = ''Player 3'',
                    ip = ''b'', team = ''red'', kills = Fin 0, health = Fin 100,
                    joinedAt = 9 \<rparr>)]" by blast
  from 1 2 3 4 5 show ?thesis by blast
qed

text \<open>
  C6. A successful Join puts the new player on the team that has fewer active players,
  and on blue when the two counts are equal. Consequently, after any sequence of Join
  requests handled from the initial empty match (each one succeeds, or fails and
  changes nothing), the numbers of blue and red players differ by at most 1.
\<close>

theorem join_balances_teams:
  "(\<forall>i p. fst (join now cd addr s) = Join_ok i p \<longrightarrow>
      (team_count ''blue'' (players s) < team_count ''red'' (players s) \<longrightarrow> team p = ''blue'') \<and>
      (team_count ''red'' (players s) < team_count ''blue'' (players s) \<longrightarrow> team p = ''red'') \<and>
      (team_count ''blue'' (players s) = team_count ''red'' (players s) \<longrightarrow> team p = ''blue'')) \<and>
   (list_all (\<lambda>(now, r). is_join r) rs \<longrightarrow>
      \<bar>int (team_count ''blue'' (players (run init rs))) -
       int (team_count ''red'' (players (run init rs)))\<bar> \<le> 1)"
proof -
  have "\<forall>i p. fst (join now cd addr s) = Join_ok i p \<longrightarrow> team p = assignTeam (players s)"
    using join_cases [of now cd addr s] by auto
  then have a: "\<forall>i p. fst (join now cd addr s) = Join_ok i p \<longrightarrow>
      (team_count ''blue'' (players s) < team_count ''red'' (players s) \<longrightarrow> team p = ''blue'') \<and>
      (team_count ''red'' (players s) < team_count ''blue'' (players s) \<longrightarrow> team p = ''red'') \<and>
      (team_count ''blue'' (players s) = team_count ''red'' (players s) \<longrightarrow> team p = ''blue'')"
    by (auto simp: assignTeam_def Let_def)
  have i: "ids_ok (players init)" "balanced (players init)"
    by (simp_all add: init_def ids_ok_Nil balanced_def team_count_def)
  have b: "list_all (\<lambda>(now, r). is_join r) rs \<longrightarrow>
      \<bar>int (team_count ''blue'' (players (run init rs))) -
       int (team_count ''red'' (players (run init rs)))\<bar> \<le> 1"
  proof
    assume "list_all (\<lambda>(now, r). is_join r) rs"
    from balanced_run [OF i this] have "balanced (players (run init rs))" by simp
    then show "\<bar>int (team_count ''blue'' (players (run init rs))) -
       int (team_count ''red'' (players (run init rs)))\<bar> \<le> 1"
      by (simp add: balanced_def)
  qed
  from a b show ?thesis by blast
qed

theorem join_balances_teams_witness:
  "team_count ''blue'' (players init) = team_count ''red'' (players init) \<and>
   map_option team (joined (fst (join 5 (JNum (Fin 7)) ''a'' init))) = Some ''blue'' \<and>
   team_count ''red'' (players (run init [(5, Join (JNum (Fin 7)) ''a'')]))
     < team_count ''blue'' (players (run init [(5, Join (JNum (Fin 7)) ''a'')])) \<and>
   map_option team (joined (fst (join 6 (JNum (Fin 3)) ''b''
       (run init [(5, Join (JNum (Fin 7)) ''a'')])))) = Some ''red'' \<and>
   team_count ''blue'' (players (run init [(5, Join (JNum (Fin 7)) ''a''),
       (6, Join (JNum (Fin 3)) ''b''), (7, Delete ''a-5'')]))
     < team_count ''red'' (players (run init [(5, Join (JNum (Fin 7)) ''a''),
       (6, Join (JNum (Fin 3)) ''b''), (7, Delete ''a-5'')])) \<and>
   map_option team (joined (fst (join 8 (JNum (Fin 9)) ''c''
       (run init [(5, Join (JNum (Fin 7)) ''a''), (6, Join (JNum (Fin 3)) ''b''),
          (7, Delete ''a-5'')])))) = Some ''blue'' \<and>
   list_all (\<lambda>(now, r). is_join r)
     [(5::nat, Join (JNum (Fin 7)) ''a''), (6, Join (JNum (Fin 3)) ''b''),
      (7, Join (JNum (Fin 9)) ''c'')] \<and>
   \<bar>int (team_count ''blue'' (players (run init [(5, Join (JNum (Fin 7)) ''a''),
        (6, Join (JNum (Fin 3)) ''b''), (7, Join (JNum (Fin 9)) ''c'')]))) -
    int (team_count ''red'' (players (run init [(5, Join (JNum (Fin 7)) ''a''),
        (6, Join (JNum (Fin 3)) ''b''), (7, Join (JNum (Fin 9)) ''c'')])))\<bar> \<le> 1"
proof -
  let ?S1 = "run init [(5, Join (JNum (Fin 7)) ''a'')]"
  let ?S3 = "run init [(5, Join (JNum (Fin 7)) ''a''), (6, Join (JNum (Fin 3)) ''b''),
          (7, Delete ''a-5'')]"
  let ?rs = "[(5, Join (JNum (Fin 7)) ''a''), (6, Join (JNum (Fin 3)) ''b''),
      (7::nat, Join (JNum (Fin 9)) ''c'')]"
  have c0: "team_count ''blue'' (players init) = team_count ''red'' (players init)"
    by (simp add: init_def team_count_def)
  have j0: "fst (join 5 (JNum (Fin 7)) ''a'' init) = Join_ok ''a-5''
      \<lparr> pid = ''a-5'', number = 4, code = Fin 7, name = ''Player 7'', ip = ''a'',
        team = assignTeam (players init), kills = Fin 0, health = Fin 100, joinedAt = 5 \<rparr>"
    by (simp add: eval_defs)
  from join_balances_teams [of 5 "JNum (Fin 7)" "''a''" init "[]"] c0 j0
  have 1: "map_option team (joined (fst (join 5 (JNum (Fin 7)) ''a'' init))) = Some ''blue''"
    by (simp add: joined_def)
  have c1: "team_count ''red'' (players ?S1) < team_count ''blue'' (players ?S1)"
    by (simp add: eval_defs)
  have j1: "fst (join 6 (JNum (Fin 3)) ''b'' ?S1) = Join_ok ''b-6''
      \<lparr> pid = ''b-6'', number = 5, code = Fin 3, name = ''Player 3'', ip = ''b'',
        team = assignTeam (players ?S1), kills = Fin 0, health = Fin 100, joinedAt = 6 \<rparr>"
    by (simp add: eval_defs)
  from join_balances_teams [of 6 "JNum (Fin 3)" "''b''" ?S1 "[]"] c1 j1
  have 2: "map_option team (joined (fst (join 6 (JNum (Fin 3)) ''b'' ?S1))) = Some ''red''"
    by (simp add: joined_def)
  have c3: "team_count ''blue'' (players ?S3) < team_count ''red'' (players ?S3)"
    by (simp add: eval_defs)
  have j3: "fst (join 8 (JNum (Fin 9)) ''c'' ?S3) = Join_ok ''c-8''
      \<lparr> pid = ''c-8'', number = 6, code = Fin 9, name = ''Player 9'', ip = ''c'',
        team = assignTeam (players ?S3), kills = Fin 0, health = Fin 100, joinedAt = 8 \<rparr>"
    by (simp add: eval_defs)
  from join_balances_teams [of 8 "JNum (Fin 9)" "''c''" ?S3 "[]"] c3 j3
  have 3: "map_option team (joined (fst (join 8 (JNum (Fin 9)) ''c'' ?S3))) = Some ''blue''"
    by (simp add: joined_def)
  have l: "list_all (\<lambda>(now, r). is_join r) ?rs" by (simp add: is_join_def)
  with join_balances_teams [of 5 JNull "''a''" init ?rs]
  have 4: "\<bar>int (team_count ''blue'' (players (run init ?rs))) -
    int (team_count ''red'' (players (run init ?rs)))\<bar> \<le> 1" by blast
  from c0 1 c1 2 c3 3 l 4 show ?thesis by (intro conjI)
qed

section \<open>Player numbers\<close>

text \<open>
  C9, as the claim states it, fails: Restart sets the counter back to 4, so a player who
  joins after a Restart receives the number 4 again, which is not greater than the
  number 4 of the player who joined before it.
\<close>

theorem numbers_repeat_after_restart:
  "map_option number (joined (fst (handle 5 (Join (JNum (Fin 7)) ''a'') init))) = Some 4 \<and>
   map_option number (joined (fst (handle 7 (Join (JNum (Fin 3)) ''b'')
      (run init [(5, Join (JNum (Fin 7)) ''a''), (6, Restart)])))) = Some 4"
  by (simp add: eval_defs joined_def)

text \<open>
  C9, amended. The counter starts at 4 and Restart sets it back to 4. A successful Join
  gives the new player the current counter and increments it by one. For every pair of
  successful Joins with no Restart handled between them, whatever else is handled
  between them, the later player receives a strictly greater number than the earlier.
\<close>

theorem numbers_increase_between_restarts:
  "nextPlayerNumber init = 4 \<and>
   nextPlayerNumber (snd (restart now s)) = 4 \<and>
   (\<forall>i p. fst (join n1 c1 a1 s) = Join_ok i p \<longrightarrow>
      number p = nextPlayerNumber s \<and>
      nextPlayerNumber (snd (join n1 c1 a1 s)) = Suc (nextPlayerNumber s)) \<and>
   (\<forall>i1 p1 i2 p2.
      fst (join n1 c1 a1 s) = Join_ok i1 p1 \<and>
      list_all (\<lambda>(now, r). r \<noteq> Restart) rs \<and>
      fst (join n2 c2 a2 (run (snd (join n1 c1 a1 s)) rs)) = Join_ok i2 p2 \<longrightarrow>
      number p1 < number p2)"
proof -
  have a: "\<forall>i p. fst (join n1 c1 a1 s) = Join_ok i p \<longrightarrow>
      number p = nextPlayerNumber s \<and>
      nextPlayerNumber (snd (join n1 c1 a1 s)) = Suc (nextPlayerNumber s)"
    using join_cases [of n1 c1 a1 s] by auto
  have b: "number p1 < number p2"
    if h: "fst (join n1 c1 a1 s) = Join_ok i1 p1"
      "list_all (\<lambda>(now, r). r \<noteq> Restart) rs"
      "fst (join n2 c2 a2 (run (snd (join n1 c1 a1 s)) rs)) = Join_ok i2 p2"
    for i1 p1 i2 p2
  proof -
    from a h(1) have 1: "number p1 = nextPlayerNumber s"
      "nextPlayerNumber (snd (join n1 c1 a1 s)) = Suc (nextPlayerNumber s)" by auto
    from run_counter_mono [OF h(2)]
    have 2: "nextPlayerNumber (snd (join n1 c1 a1 s))
             \<le> nextPlayerNumber (run (snd (join n1 c1 a1 s)) rs)" .
    from join_cases [of n2 c2 a2 "run (snd (join n1 c1 a1 s)) rs"] h(3)
    have "number p2 = nextPlayerNumber (run (snd (join n1 c1 a1 s)) rs)" by auto
    with 1 2 show ?thesis by simp
  qed
  from a b show ?thesis by (simp add: init_def restart_def)
qed

theorem numbers_increase_between_restarts_witness:
  "list_all (\<lambda>(now, r). r \<noteq> Restart) [(6::nat, Obtain (JStr ''a-5''))] \<and>
   (case (joined (fst (join 5 (JNum (Fin 7)) ''a'' init)),
          joined (fst (join 7 (JNum (Fin 3)) ''b''
            (run (snd (join 5 (JNum (Fin 7)) ''a'' init)) [(6, Obtain (JStr ''a-5''))])))) of
      (Some p1, Some p2) \<Rightarrow> number p1 = 4 \<and> number p2 = 5 \<and> number p1 < number p2
    | _ \<Rightarrow> False)"
proof -
  let ?rs = "[(6::nat, Obtain (JStr ''a-5''))]"
  let ?p1 = "\<lparr> pid = ''a-5'', number = 4, code = Fin 7, name = ''Player 7'', ip = ''a'',
        team = ''blue'', kills = Fin 0, health = Fin 100, joinedAt = 5 \<rparr>"
  let ?p2 = "\<lparr> pid = ''b-7'', number = 5, code = Fin 3, name = ''Player 3'', ip = ''b'',
        team = ''red'', kills = Fin 0, health = Fin 100, joinedAt = 7 \<rparr>"
  have l: "list_all (\<lambda>(now, r). r \<noteq> Restart) ?rs" by simp
  have j1: "fst (join 5 (JNum (Fin 7)) ''a'' init) = Join_ok ''a-5'' ?p1"
    by (simp add: eval_defs)
  have j2: "fst (join 7 (JNum (Fin 3)) ''b'' (run (snd (join 5 (JNum (Fin 7)) ''a'' init)) ?rs))
            = Join_ok ''b-7'' ?p2"
    by (simp add: after_first_join) (simp add: eval_defs)
  from numbers_increase_between_restarts [of 0 init 5 "JNum (Fin 7)" "''a''" ?rs 7 "JNum (Fin 3)" "''b''"]
    l j1 j2
  have "number ?p1 < number ?p2" by blast
  with l j1 j2 show ?thesis by (simp add: joined_def)
qed

section \<open>Teams\<close>

text \<open>
  C10, as the claim states it, fails: after one capture for blue its counter is 1, and
  Restart, which is no capture, changes it to 0.
\<close>

theorem restart_resets_flagsCaptured:
  "flagsCaptured (blue (teams (run init [(5, Join (JNum (Fin 7)) ''a''),
      (6, Obtain (JStr ''a-5'')), (7, Capture (JStr ''a-5''))]))) = 1 \<and>
   flagsCaptured (blue (teams (snd (handle 8 Restart (run init [(5, Join (JNum (Fin 7)) ''a''),
      (6, Obtain (JStr ''a-5'')), (7, Capture (JStr ''a-5''))]))))) = 0"
  by (simp add: eval_defs)

text \<open>
  C10, amended. No request changes the name or the color of either team. A request that
  changes the \<open>flagsCaptured\<close> counter of a team is either a Capture that succeeds or a
  Restart, and Restart sets both counters to 0.
\<close>

theorem teams_frame:
  "tname (blue (teams (snd (handle now r s)))) = tname (blue (teams s)) \<and>
   color (blue (teams (snd (handle now r s)))) = color (blue (teams s)) \<and>
   tname (red (teams (snd (handle now r s)))) = tname (red (teams s)) \<and>
   color (red (teams (snd (handle now r s)))) = color (red (teams s)) \<and>
   (flagsCaptured (blue (teams (snd (handle now r s)))) \<noteq> flagsCaptured (blue (teams s)) \<or>
    flagsCaptured (red (teams (snd (handle now r s)))) \<noteq> flagsCaptured (red (teams s))
    \<longrightarrow> r = Restart \<or> (\<exists>i k n h. r = Capture i \<and> fst (handle now r s) = Capture_ok k n h)) \<and>
   flagsCaptured (blue (teams (snd (handle now Restart s)))) = 0 \<and>
   flagsCaptured (red (teams (snd (handle now Restart s)))) = 0"
proof (cases "r = Restart")
  case True
  then show ?thesis by (simp add: restart_def)
next
  case nr: False
  show ?thesis
  proof (cases "\<exists>i. r = Capture i")
    case True
    then obtain i where r: "r = Capture i" by blast
    from capture_teams [of now i s] capture_names [of now i s] r show ?thesis
      by (auto simp: restart_def)
  next
    case False
    with nr other_teams [of r now s] show ?thesis by (simp add: restart_def)
  qed
qed

theorem teams_frame_witness:
  "flagsCaptured (blue (teams (snd (handle 7 (Capture (JStr ''a-5''))
      (run init [(5, Join (JNum (Fin 7)) ''a''), (6, Obtain (JStr ''a-5''))])))))
     \<noteq> flagsCaptured (blue (teams (run init [(5, Join (JNum (Fin 7)) ''a''),
          (6, Obtain (JStr ''a-5''))]))) \<and>
   (\<exists>k n h. fst (handle 7 (Capture (JStr ''a-5''))
      (run init [(5, Join (JNum (Fin 7)) ''a''), (6, Obtain (JStr ''a-5''))])) = Capture_ok k n h)"
proof -
  let ?S = "run init [(5, Join (JNum (Fin 7)) ''a''), (6, Obtain (JStr ''a-5''))]"
  have c: "flagsCaptured (blue (teams (snd (handle 7 (Capture (JStr ''a-5'')) ?S))))
     \<noteq> flagsCaptured (blue (teams ?S))"
    by (simp add: eval_defs)
  with teams_frame [of 7 "Capture (JStr ''a-5'')" ?S]
  have "\<exists>k n h. fst (handle 7 (Capture (JStr ''a-5'')) ?S) = Capture_ok k n h" by blast
  with c show ?thesis by blast
qed

section \<open>Event log\<close>

text \<open>
  C7. In every reachable state the event log holds at most 2000 entries. Appending to a
  log of fewer than 2000 entries adds the entry at the end; appending to a log of 2000
  entries drops exactly the first (oldest) entry and adds the new one at the end, so
  the retained entries keep their order. ListEvents returns the whole log as it is
  stored, oldest first, and changes nothing.
\<close>

theorem event_log_bounded:
  "(reachable s \<longrightarrow> length (events s) \<le> 2000) \<and>
   (length evs < 2000 \<longrightarrow> logEvent now m evs = evs @ [\<lparr> ts = now, message = m \<rparr>]) \<and>
   (length evs = 2000 \<longrightarrow> logEvent now m evs = tl evs @ [\<lparr> ts = now, message = m \<rparr>]) \<and>
   list_events s = (Events_ok (events s), s)"
proof -
  have "length evs = 2000 \<longrightarrow> logEvent now m evs = tl evs @ [\<lparr> ts = now, message = m \<rparr>]"
    by (cases evs) (simp_all add: logEvent_def)
  then show ?thesis
    by (simp add: reachable_events logEvent_def list_events_def)
qed

theorem event_log_bounded_witness:
  "reachable init \<and> length (events init) \<le> 2000 \<and>
   length ([] :: entry list) < 2000 \<and>
   logEvent 1 Match_restarted [] = [\<lparr> ts = 1, message = Match_restarted \<rparr>] \<and>
   length (map (\<lambda>i. \<lparr> ts = i, message = Match_restarted \<rparr>) [0..<2000]) = 2000 \<and>
   logEvent 2000 Match_restarted (map (\<lambda>i. \<lparr> ts = i, message = Match_restarted \<rparr>) [0..<2000])
     = map (\<lambda>i. \<lparr> ts = i, message = Match_restarted \<rparr>) [1..<2001]"
proof -
  let ?evs = "map (\<lambda>i. \<lparr> ts = i, message = Match_restarted \<rparr>) [0..<2000]"
  have l: "length ?evs = 2000" by simp
  from event_log_bounded [of init "[]" 1 Match_restarted] reachable_init
  have 1: "length (events init) \<le> 2000"
    "logEvent 1 Match_restarted [] = [\<lparr> ts = 1, message = Match_restarted \<rparr>]" by simp_all
  from event_log_bounded [of init ?evs 2000 Match_restarted] l
  have "logEvent 2000 Match_restarted ?evs = tl ?evs @ [\<lparr> ts = 2000, message = Match_restarted \<rparr>]"
    by blast
  also have "tl ?evs @ [\<lparr> ts = 2000, message = Match_restarted \<rparr>]
      = map (\<lambda>i. \<lparr> ts = i, message = Match_restarted \<rparr>) [1..<2001]"
  proof -
    have a: "[0..<2000::nat] = 0 # [Suc 0..<2000]" by (rule upt_conv_Cons) simp
    have b: "[Suc 0..<2001::nat] = [Suc 0..<2000] @ [2000]"
      using upt_Suc_append [of "Suc 0" 2000] by simp
    show ?thesis by (simp add: a b)
  qed
  finally have 2: "logEvent 2000 Match_restarted ?evs
     = map (\<lambda>i. \<lparr> ts = i, message = Match_restarted \<rparr>) [1..<2001]" .
  from reachable_init 1 l 2 show ?thesis by simp
qed

section \<open>The flag\<close>

text \<open>
  C1, evaluated where the code breaks it. A player joins, obtains the flag and leaves
  through \<^verbatim>\<open>POST /api/player/leave\<close>: the player is gone and \<open>flagHolder\<close> still holds the
  id, so it references no active player. The same player removed through
  \<^verbatim>\<open>DELETE /api/player/:id\<close> leaves \<open>flagHolder\<close> empty. (Every request other than the
  legacy leave preserves \<open>holder_ok\<close>: lemma \<open>holder_ok_handle\<close>.)
\<close>

theorem leave_keeps_flagHolder:
  "flagHolder (run init [(5, Join (JNum (Fin 7)) ''a''), (6, Obtain (JStr ''a-5'')),
      (7, Leave (JStr ''a-5''))]) = Some ''a-5'' \<and>
   players (run init [(5, Join (JNum (Fin 7)) ''a''), (6, Obtain (JStr ''a-5'')),
      (7, Leave (JStr ''a-5''))]) = [] \<and>
   \<not> holder_ok (run init [(5, Join (JNum (Fin 7)) ''a''), (6, Obtain (JStr ''a-5'')),
      (7, Leave (JStr ''a-5''))]) \<and>
   flagHolder (run init [(5, Join (JNum (Fin 7)) ''a''), (6, Obtain (JStr ''a-5'')),
      (7, Delete ''a-5'')]) = None"
  by (simp add: eval_defs holder_ok_def)

text \<open>
  C2, evaluated where the code breaks it. \<^verbatim>\<open>teams['constructor']\<close> is the inherited function
  \<^verbatim>\<open>Object\<close>, so ChangeTeam accepts the team \<^verbatim>\<open>constructor\<close>. When that player holds the
  flag, Capture succeeds, replies with the counter \<^verbatim>\<open>NaN\<close> and increments the counter of
  neither team. (In a reachable state Capture by an active player succeeds if and only
  if that player holds the flag, fails with InvalidTransition and no change otherwise,
  and clears \<open>flagHolder\<close> on success: lemma \<open>capture_iff_holder\<close>. For a player on blue
  or red it increments the counter of that team by one: lemma \<open>capture_own_team\<close>.)
\<close>

theorem capture_on_inherited_team:
  "fst (handle 6 (ChangeTeam (JStr ''a-5'') (JStr ''constructor''))
         (run init [(5, Join (JNum (Fin 7)) ''a'')])) =
     Player_ok \<lparr> pid = ''a-5'', number = 4, code = Fin 7, name = ''Player 7'', ip = ''a'',
        team = ''constructor'', kills = Fin 0, health = Fin 100, joinedAt = 5 \<rparr> \<and>
   fst (handle 8 (Capture (JStr ''a-5''))
         (run init [(5, Join (JNum (Fin 7)) ''a''),
            (6, ChangeTeam (JStr ''a-5'') (JStr ''constructor'')), (7, Obtain (JStr ''a-5''))])) =
     Capture_ok ''constructor'' NaN None \<and>
   teams (snd (handle 8 (Capture (JStr ''a-5''))
         (run init [(5, Join (JNum (Fin 7)) ''a''),
            (6, ChangeTeam (JStr ''a-5'') (JStr ''constructor'')), (7, Obtain (JStr ''a-5''))]))) =
     teams init"
  by (simp add: eval_defs)

section \<open>Attack\<close>

text \<open>
  C4, as the claim states it, fails. UpdateStats with \<^verbatim>\<open>kills: 1e999\<close> sets the counter of
  a player to \<^verbatim>\<open>Infinity\<close>. When that player then kills another, the reply reports
  killed = true and the counter is \<^verbatim>\<open>Infinity + 1\<close>, which is \<^verbatim>\<open>Infinity\<close>: the kill has not
  increased it.
\<close>

theorem kill_leaves_infinite_counter:
  "map_option kills (map_of (players (run init [(5, Join (JNum (Fin 7)) ''a''),
       (6, Join (JNum (Fin 3)) ''b''), (7, Update (JStr ''b-6'') (JNum PosInf) JUndefined)]))
     ''b-6'') = Some PosInf \<and>
   fst (handle 8 (Attack (JStr ''b-6'') (JStr ''a-5'') (JNum (Fin 100)))
       (run init [(5, Join (JNum (Fin 7)) ''a''), (6, Join (JNum (Fin 3)) ''b''),
          (7, Update (JStr ''b-6'') (JNum PosInf) JUndefined)])) =
     Attack_ok
       \<lparr> pid = ''b-6'', number = 5, code = Fin 3, name = ''Player 3'', ip = ''b'',
         team = ''red'', kills = PosInf, health = Fin 100, joinedAt = 6 \<rparr>
       \<lparr> pid = ''a-5'', number = 4, code = Fin 7, name = ''Player 7'', ip = ''a'',
         team = ''blue'', kills = Fin 0, health = Fin 100, joinedAt = 5 \<rparr>
       True None \<and>
   map_option kills (map_of (players (snd (handle 8
       (Attack (JStr ''b-6'') (JStr ''a-5'') (JNum (Fin 100)))
       (run init [(5, Join (JNum (Fin 7)) ''a''), (6, Join (JNum (Fin 3)) ''b''),
          (7, Update (JStr ''b-6'') (JNum PosInf) JUndefined)])))) ''b-6'') = Some PosInf"
  by (simp add: eval_defs)

text \<open>
  C4, amended. Take a successful Attack: attacker and target are found and differ. If
  the health of the target minus the clamped damage, floored at 0, is exactly 0, then
  the reply reports killed = true, the kills of the attacker are set once, to a value
  that is the old counter plus 1 whenever the old counter is an integer in [0, 2^53)
  and that is infinite when the old counter is infinite, nothing else of the attacker
  changes, the health of the target is 100, and \<open>flagHolder\<close> is cleared if it was the
  target and unchanged otherwise. If not, the reply reports killed = false, the
  attacker and \<open>flagHolder\<close> are unchanged, and the target is left with a health that
  is the difference whenever health and damage are integers below 2^53. In both cases
  the health the target is left with is not 0.
\<close>

theorem attack_kill:
  assumes "find_player s attackerId = Some (a, attacker)"
    and "find_player s targetId = Some (t, target)"
    and "a \<noteq> t"
  shows "(strict_eq (Math_max (Fin 0) (js_sub (health target) (attack_damage damage))) (Fin 0) \<longrightarrow>
            (\<exists>k. fst (attack now attackerId targetId damage s) =
                   Attack_ok (attacker\<lparr> kills := k \<rparr>) (target\<lparr> health := Fin 100 \<rparr>) True
                     (if flagHolder s = Some t then None else flagHolder s) \<and>
                 map_of (players (snd (attack now attackerId targetId damage s))) a =
                   Some (attacker\<lparr> kills := k \<rparr>) \<and>
                 (\<forall>n::nat. n < 2 ^ 53 \<and> kills attacker = Fin (real n) \<longrightarrow>
                    k = Fin (real (Suc n))) \<and>
                 (kills attacker = PosInf \<longrightarrow> k = PosInf)) \<and>
            map_of (players (snd (attack now attackerId targetId damage s))) t =
              Some (target\<lparr> health := Fin 100 \<rparr>) \<and>
            flagHolder (snd (attack now attackerId targetId damage s)) =
              (if flagHolder s = Some t then None else flagHolder s)) \<and>
         (\<not> strict_eq (Math_max (Fin 0) (js_sub (health target) (attack_damage damage))) (Fin 0) \<longrightarrow>
            (\<exists>h. fst (attack now attackerId targetId damage s) =
                   Attack_ok attacker (target\<lparr> health := h \<rparr>) False (flagHolder s) \<and>
                 map_of (players (snd (attack now attackerId targetId damage s))) t =
                   Some (target\<lparr> health := h \<rparr>) \<and>
                 (\<forall>m d::nat. m < 2 ^ 53 \<and> health target = Fin (real m) \<and>
                      attack_damage damage = Fin (real d) \<longrightarrow> h = Fin (real (m - d)))) \<and>
            map_of (players (snd (attack now attackerId targetId damage s))) a = Some attacker \<and>
            flagHolder (snd (attack now attackerId targetId damage s)) = flagHolder s) \<and>
         (\<forall>q. map_of (players (snd (attack now attackerId targetId damage s))) t = Some q \<longrightarrow>
            \<not> strict_eq (health q) (Fin 0))"
proof -
  let ?h1 = "Math_max (Fin 0) (js_sub (health target) (attack_damage damage))"
  let ?k = "js_add (or0 (kills attacker)) (Fin 1)"
  note ok = attack_ok [OF assms, of now damage]
  show ?thesis
  proof (cases "strict_eq ?h1 (Fin 0)")
    case True
    have k1: "\<forall>n::nat. n < 2 ^ 53 \<and> kills attacker = Fin (real n) \<longrightarrow> ?k = Fin (real (Suc n))"
      by (simp add: or0_Fin add.commute)
    have k2: "kills attacker = PosInf \<longrightarrow> ?k = PosInf"
      by (simp add: or0_def truthy_num_def)
    from True ok assms(3)
    have r: "fst (attack now attackerId targetId damage s) =
          Attack_ok (attacker\<lparr> kills := ?k \<rparr>) (target\<lparr> health := Fin 100 \<rparr>) True
            (if flagHolder s = Some t then None else flagHolder s)"
      and pa: "map_of (players (snd (attack now attackerId targetId damage s))) a =
          Some (attacker\<lparr> kills := ?k \<rparr>)"
      and pt: "map_of (players (snd (attack now attackerId targetId damage s))) t =
          Some (target\<lparr> health := Fin 100 \<rparr>)"
      and fh: "flagHolder (snd (attack now attackerId targetId damage s)) =
          (if flagHolder s = Some t then None else flagHolder s)"
      by (simp_all add: Let_def map_of_update_same map_of_update_other)
    from r pa k1 k2
    have "\<exists>k. fst (attack now attackerId targetId damage s) =
                   Attack_ok (attacker\<lparr> kills := k \<rparr>) (target\<lparr> health := Fin 100 \<rparr>) True
                     (if flagHolder s = Some t then None else flagHolder s) \<and>
                 map_of (players (snd (attack now attackerId targetId damage s))) a =
                   Some (attacker\<lparr> kills := k \<rparr>) \<and>
                 (\<forall>n::nat. n < 2 ^ 53 \<and> kills attacker = Fin (real n) \<longrightarrow>
                    k = Fin (real (Suc n))) \<and>
                 (kills attacker = PosInf \<longrightarrow> k = PosInf)"
      by blast
    moreover have "\<forall>q. map_of (players (snd (attack now attackerId targetId damage s))) t = Some q
        \<longrightarrow> \<not> strict_eq (health q) (Fin 0)"
      using pt by (simp add: strict_eq_def)
    ultimately show ?thesis using True pt fh by simp
  next
    case False
    have d: "\<forall>m d::nat. m < 2 ^ 53 \<and> health target = Fin (real m) \<and>
                 attack_damage damage = Fin (real d) \<longrightarrow> ?h1 = Fin (real (m - d))"
      using False by (auto simp: Math_max_def js_sub_def strict_eq_def of_nat_diff)
    from False ok assms(3)
    have r: "fst (attack now attackerId targetId damage s) =
          Attack_ok attacker (target\<lparr> health := ?h1 \<rparr>) False (flagHolder s)"
      and pa: "map_of (players (snd (attack now attackerId targetId damage s))) a = Some attacker"
      and pt: "map_of (players (snd (attack now attackerId targetId damage s))) t =
          Some (target\<lparr> health := ?h1 \<rparr>)"
      and fh: "flagHolder (snd (attack now attackerId targetId damage s)) = flagHolder s"
      by (simp_all add: Let_def map_of_update_same map_of_update_other)
    from r pt d
    have "\<exists>h. fst (attack now attackerId targetId damage s) =
                   Attack_ok attacker (target\<lparr> health := h \<rparr>) False (flagHolder s) \<and>
                 map_of (players (snd (attack now attackerId targetId damage s))) t =
                   Some (target\<lparr> health := h \<rparr>) \<and>
                 (\<forall>m d::nat. m < 2 ^ 53 \<and> health target = Fin (real m) \<and>
                      attack_damage damage = Fin (real d) \<longrightarrow> h = Fin (real (m - d)))"
      by blast
    moreover have "\<forall>q. map_of (players (snd (attack now attackerId targetId damage s))) t = Some q
        \<longrightarrow> \<not> strict_eq (health q) (Fin 0)"
      using pt False by simp
    ultimately show ?thesis using False pa fh by simp
  qed
qed

theorem attack_kill_witness:
  "flagHolder (run init [(5, Join (JNum (Fin 7)) ''a''), (6, Join (JNum (Fin 3)) ''b''),
       (7, Obtain (JStr ''a-5''))]) = Some ''a-5'' \<and>
   map_option kills (map_of (players (run init [(5, Join (JNum (Fin 7)) ''a''),
       (6, Join (JNum (Fin 3)) ''b''), (7, Obtain (JStr ''a-5''))])) ''b-6'') = Some (Fin 0) \<and>
   strict_eq (Math_max (Fin 0) (js_sub (Fin 100) (attack_damage (JNum (Fin 100))))) (Fin 0) \<and>
   map_option kills (map_of (players (snd (attack 8 (JStr ''b-6'') (JStr ''a-5'') (JNum (Fin 100))
       (run init [(5, Join (JNum (Fin 7)) ''a''), (6, Join (JNum (Fin 3)) ''b''),
          (7, Obtain (JStr ''a-5''))])))) ''b-6'') = Some (Fin 1) \<and>
   map_option health (map_of (players (snd (attack 8 (JStr ''b-6'') (JStr ''a-5'') (JNum (Fin 100))
       (run init [(5, Join (JNum (Fin 7)) ''a''), (6, Join (JNum (Fin 3)) ''b''),
          (7, Obtain (JStr ''a-5''))])))) ''a-5'') = Some (Fin 100) \<and>
   flagHolder (snd (attack 8 (JStr ''b-6'') (JStr ''a-5'') (JNum (Fin 100))
       (run init [(5, Join (JNum (Fin 7)) ''a''), (6, Join (JNum (Fin 3)) ''b''),
          (7, Obtain (JStr ''a-5''))]))) = None \<and>
   \<not> strict_eq (Math_max (Fin 0) (js_sub (Fin 100) (attack_damage JUndefined))) (Fin 0) \<and>
   map_option kills (map_of (players (snd (attack 8 (JStr ''b-6'') (JStr ''a-5'') JUndefined
       (run init [(5, Join (JNum (Fin 7)) ''a''), (6, Join (JNum (Fin 3)) ''b''),
          (7, Obtain (JStr ''a-5''))])))) ''b-6'') = Some (Fin 0) \<and>
   map_option health (map_of (players (snd (attack 8 (JStr ''b-6'') (JStr ''a-5'') JUndefined
       (run init [(5, Join (JNum (Fin 7)) ''a''), (6, Join (JNum (Fin 3)) ''b''),
          (7, Obtain (JStr ''a-5''))])))) ''a-5'') = Some (Fin 90) \<and>
   flagHolder (snd (attack 8 (JStr ''b-6'') (JStr ''a-5'') JUndefined
       (run init [(5, Join (JNum (Fin 7)) ''a''), (6, Join (JNum (Fin 3)) ''b''),
          (7, Obtain (JStr ''a-5''))]))) = Some ''a-5''"
proof -
  let ?S = "run init [(5, Join (JNum (Fin 7)) ''a''), (6, Join (JNum (Fin 3)) ''b''),
       (7, Obtain (JStr ''a-5''))]"
  let ?A = "\<lparr> pid = ''a-5'', number = 4, code = Fin 7, name = ''Player 7'',
                         ip = ''a'', team = ''blue'', kills = Fin 0, health = Fin 100,
                         joinedAt = 5 \<rparr>"
  let ?B = "\<lparr> pid = ''b-6'', number = 5, code = Fin 3, name = ''Player 3'',
                         ip = ''b'', team = ''red'', kills = Fin 0, health = Fin 100,
                         joinedAt = 6 \<rparr>"
  have fb: "find_player ?S (JStr ''b-6'') = Some (''b-6'', ?B)"
    unfolding flag_state by (simp add: find_player_def)
  have fa: "find_player ?S (JStr ''a-5'') = Some (''a-5'', ?A)"
    unfolding flag_state by (simp add: find_player_def)
  have ne: "''b-6'' \<noteq> ''a-5''" by simp
  have h: "flagHolder ?S = Some ''a-5''" unfolding flag_state by simp
  have k0: "map_option kills (map_of (players ?S) ''b-6'') = Some (Fin 0)"
    unfolding flag_state by simp
  have k: "strict_eq (Math_max (Fin 0) (js_sub (Fin 100) (attack_damage (JNum (Fin 100))))) (Fin 0)"
    by (simp add: eval_defs)
  have nk: "\<not> strict_eq (Math_max (Fin 0) (js_sub (Fin 100) (attack_damage JUndefined))) (Fin 0)"
    by (simp add: eval_defs)
  have n0: "(0::nat) < 2 ^ 53 \<and> kills ?B = Fin (real (0::nat))" by simp
  have md: "(100::nat) < 2 ^ 53 \<and> health ?A = Fin (real (100::nat)) \<and>
      attack_damage JUndefined = Fin (real (10::nat))"
    by (simp add: attack_damage_def)
  from attack_kill [OF fb fa ne, of "JNum (Fin 100)" 8] k h
  obtain kk where kk: "map_of (players (snd (attack 8 (JStr ''b-6'') (JStr ''a-5'')
         (JNum (Fin 100)) ?S))) ''b-6'' = Some (?B\<lparr> kills := kk \<rparr>)"
      "\<forall>n::nat. n < 2 ^ 53 \<and> kills ?B = Fin (real n) \<longrightarrow> kk = Fin (real (Suc n))"
    and t1: "map_of (players (snd (attack 8 (JStr ''b-6'') (JStr ''a-5'')
         (JNum (Fin 100)) ?S))) ''a-5'' = Some (?A\<lparr> health := Fin 100 \<rparr>)"
    and f1: "flagHolder (snd (attack 8 (JStr ''b-6'') (JStr ''a-5'') (JNum (Fin 100)) ?S)) = None"
    by auto
  from kk(2) n0 have "kk = Fin (real (Suc 0))" by blast
  with kk(1) t1
  have 1: "map_option kills (map_of (players (snd (attack 8 (JStr ''b-6'') (JStr ''a-5'')
       (JNum (Fin 100)) ?S))) ''b-6'') = Some (Fin 1)"
    "map_option health (map_of (players (snd (attack 8 (JStr ''b-6'') (JStr ''a-5'')
       (JNum (Fin 100)) ?S))) ''a-5'') = Some (Fin 100)"
    by simp_all
  from attack_kill [OF fb fa ne, of JUndefined 8] nk h
  obtain hh where hh: "map_of (players (snd (attack 8 (JStr ''b-6'') (JStr ''a-5'')
         JUndefined ?S))) ''a-5'' = Some (?A\<lparr> health := hh \<rparr>)"
      "\<forall>m d::nat. m < 2 ^ 53 \<and> health ?A = Fin (real m) \<and>
          attack_damage JUndefined = Fin (real d) \<longrightarrow> hh = Fin (real (m - d))"
    and a2: "map_of (players (snd (attack 8 (JStr ''b-6'') (JStr ''a-5'')
         JUndefined ?S))) ''b-6'' = Some ?B"
    and f2: "flagHolder (snd (attack 8 (JStr ''b-6'') (JStr ''a-5'') JUndefined ?S)) = Some ''a-5''"
    by auto
  from hh(2) md have "hh = Fin (real ((100::nat) - 10))" by blast
  with hh(1) a2
  have 2: "map_option kills (map_of (players (snd (attack 8 (JStr ''b-6'') (JStr ''a-5'')
       JUndefined ?S))) ''b-6'') = Some (Fin 0)"
    "map_option health (map_of (players (snd (attack 8 (JStr ''b-6'') (JStr ''a-5'')
       JUndefined ?S))) ''a-5'') = Some (Fin 90)"
    by simp_all
  from h k0 k 1 f1 nk 2 f2 show ?thesis by (intro conjI)
qed

section \<open>Health\<close>

text \<open>
  C3, as the claim states it, fails. An Attack with the damage 0.5 leaves the target
  with the health 99.5, which is no integer; a Heal with the amount \<^verbatim>\<open>NaN\<close> then leaves
  it with the health \<^verbatim>\<open>NaN\<close>, which is not in [0,100].
\<close>

theorem health_leaves_integer_range:
  "map (health \<circ> snd) (players (run init [(5, Join (JNum (Fin 7)) ''a''),
      (6, Join (JNum (Fin 3)) ''b''),
      (7, Attack (JStr ''b-6'') (JStr ''a-5'') (JNum (Fin (1 / 2))))])) = [Fin (199 / 2), Fin 100] \<and>
   \<not> in_range_int (Fin (199 / 2)) \<and>
   map (health \<circ> snd) (players (run init [(5, Join (JNum (Fin 7)) ''a''),
      (6, Join (JNum (Fin 3)) ''b''),
      (7, Attack (JStr ''b-6'') (JStr ''a-5'') (JNum (Fin (1 / 2)))),
      (8, Heal JUndefined (JStr ''a-5'') (JNum NaN))])) = [NaN, Fin 100] \<and>
   \<not> in_range NaN \<and> \<not> in_range_int NaN"
  by (simp add: eval_defs in_range_def in_range_int_def)

text \<open>
  C3, amended. Every player of the initial match has a health in [0,100]. A request
  whose health, damage or amount argument is anything but the number \<^verbatim>\<open>NaN\<close> (a negative
  number, a non-integer, an infinity, a value that is not a number, an absent field)
  keeps the health of every player a finite number in [0,100], and so does every
  sequence of such requests. If moreover the argument is no non-integer number, health
  values that are integers in [0,100] stay integers in [0,100].
\<close>

theorem health_stays_in_range:
  "all_health in_range init \<and>
   (all_health in_range s \<and> list_all not_NaN (health_args r) \<longrightarrow>
      all_health in_range (snd (handle now r s))) \<and>
   (all_health in_range_int s \<and> list_all integral (health_args r) \<longrightarrow>
      all_health in_range_int (snd (handle now r s))) \<and>
   (all_health in_range s \<and> list_all (\<lambda>(now, r). list_all not_NaN (health_args r)) rs \<longrightarrow>
      all_health in_range (run s rs))"
  using handle_in_range [of s r now] handle_in_range_int [of s r now] run_in_range [of s rs]
  by (simp add: all_health_def init_def)

theorem health_stays_in_range_witness:
  "all_health in_range (run init [(5, Join (JNum (Fin 7)) ''a''), (6, Join (JNum (Fin 3)) ''b'')]) \<and>
   list_all not_NaN (health_args (Attack (JStr ''b-6'') (JStr ''a-5'') (JNum (Fin (1 / 2))))) \<and>
   all_health in_range (snd (handle 7 (Attack (JStr ''b-6'') (JStr ''a-5'') (JNum (Fin (1 / 2))))
      (run init [(5, Join (JNum (Fin 7)) ''a''), (6, Join (JNum (Fin 3)) ''b'')]))) \<and>
   all_health in_range_int (run init [(5, Join (JNum (Fin 7)) ''a''), (6, Join (JNum (Fin 3)) ''b'')]) \<and>
   list_all integral (health_args (Heal JNull (JStr ''a-5'') (JNum PosInf))) \<and>
   all_health in_range_int (snd (handle 7 (Heal JNull (JStr ''a-5'') (JNum PosInf))
      (run init [(5, Join (JNum (Fin 7)) ''a''), (6, Join (JNum (Fin 3)) ''b'')]))) \<and>
   list_all (\<lambda>(now, r). list_all not_NaN (health_args r))
      [(7::nat, Update (JStr ''a-5'') (JNum NaN) (JNum (Fin (- 3)))),
       (8, Attack (JStr ''a-5'') (JStr ''b-6'') (JStr ''x''))] \<and>
   all_health in_range (run (run init [(5, Join (JNum (Fin 7)) ''a''), (6, Join (JNum (Fin 3)) ''b'')])
      [(7, Update (JStr ''a-5'') (JNum NaN) (JNum (Fin (- 3)))),
       (8, Attack (JStr ''a-5'') (JStr ''b-6'') (JStr ''x''))])"
proof -
  let ?S = "run init [(5, Join (JNum (Fin 7)) ''a''), (6, Join (JNum (Fin 3)) ''b'')]"
  let ?rs = "[(7::nat, Update (JStr ''a-5'') (JNum NaN) (JNum (Fin (- 3)))),
       (8, Attack (JStr ''a-5'') (JStr ''b-6'') (JStr ''x''))]"
  have a: "all_health in_range ?S"
    unfolding two_players by (simp add: all_health_def in_range_def init_def)
  have b: "all_health in_range_int ?S"
    unfolding two_players by (simp add: all_health_def in_range_int_def init_def)
  have c: "list_all not_NaN (health_args (Attack (JStr ''b-6'') (JStr ''a-5'') (JNum (Fin (1 / 2)))))"
    by (simp add: not_NaN_def)
  have d: "list_all integral (health_args (Heal JNull (JStr ''a-5'') (JNum PosInf)))"
    by (simp add: integral_def)
  have e: "list_all (\<lambda>(now, r). list_all not_NaN (health_args r)) ?rs"
    by (simp add: not_NaN_def)
  from health_stays_in_range [of ?S "Attack (JStr ''b-6'') (JStr ''a-5'') (JNum (Fin (1 / 2)))" 7 "[]"]
    a c
  have 1: "all_health in_range
      (snd (handle 7 (Attack (JStr ''b-6'') (JStr ''a-5'') (JNum (Fin (1 / 2)))) ?S))" by blast
  from health_stays_in_range [of ?S "Heal JNull (JStr ''a-5'') (JNum PosInf)" 7 "[]"] b d
  have 2: "all_health in_range_int (snd (handle 7 (Heal JNull (JStr ''a-5'') (JNum PosInf)) ?S))"
    by blast
  from health_stays_in_range [of ?S "Restart" 7 ?rs] a e
  have 3: "all_health in_range (run ?S ?rs)" by blast
  from a c 1 b d 2 e 3 show ?thesis by (intro conjI)
qed

end
